theory Spec2Isabelle
  imports Complex_Main "HOL-Library.Sublist"
begin

section \<open>Values, strings and the outside world\<close>

text \<open>
  The two modules \<^verbatim>\<open>amazon_scraper.py\<close> and \<^verbatim>\<open>enhanced_amazon_scraper.py\<close> are embedded
  side by side. Names of the first module carry no prefix or the prefix \<open>basic_\<close> where
  both modules define a function of the same name; names of the second module carry the
  prefix \<open>enh_\<close> in that case.

  Python values that come out of \<^verbatim>\<open>json.load\<close> are values of the type \<open>json\<close>. Numbers are
  exact reals (the rounding of floats is not modelled). A dict is an association list
  that is read with \<open>map_of\<close>. Strings are HOL strings; the functions on them
  (\<open>strip\<close>, \<open>upper\<close>) are the ASCII part of Python's.
\<close>

datatype json =
    JNull
  | JBool bool
  | JNum real
  | JStr string
  | JArr "json list"
  | JObj "(string \<times> json) list"

type_synonym dict = "(string \<times> json) list"

datatype exn = TypeError | AttributeError | ValueError | JSONDecodeError

text \<open>Python truthiness (\<^verbatim>\<open>if v:\<close>) of a decoded value.\<close>

fun truthy :: "json \<Rightarrow> bool" where
  "truthy JNull = False"
| "truthy (JBool b) = b"
| "truthy (JNum r) = (r \<noteq> 0)"
| "truthy (JStr s) = (s \<noteq> [])"
| "truthy (JArr xs) = (xs \<noteq> [])"
| "truthy (JObj kvs) = (kvs \<noteq> [])"

text \<open>\<^verbatim>\<open>len(v)\<close>: raises \<^verbatim>\<open>TypeError\<close> on \<^verbatim>\<open>None\<close>, booleans and numbers.\<close>

fun py_len :: "json \<Rightarrow> exn + nat" where
  "py_len (JStr s) = Inr (length s)"
| "py_len (JArr xs) = Inr (length xs)"
| "py_len (JObj kvs) = Inr (length kvs)"
| "py_len JNull = Inl TypeError"
| "py_len (JBool b) = Inl TypeError"
| "py_len (JNum r) = Inl TypeError"

text \<open>The right operand of \<^verbatim>\<open>time.time() - v\<close>: a number or a boolean, \<^verbatim>\<open>TypeError\<close> otherwise.\<close>

fun num_of :: "json \<Rightarrow> real option" where
  "num_of (JNum r) = Some r"
| "num_of (JBool b) = Some (if b then 1 else 0)"
| "num_of JNull = None"
| "num_of (JStr s) = None"
| "num_of (JArr xs) = None"
| "num_of (JObj kvs) = None"

text \<open>\<^verbatim>\<open>d.get(k, default)\<close>.\<close>

definition dict_get :: "dict \<Rightarrow> string \<Rightarrow> json \<Rightarrow> json" where
  "dict_get d k dflt = (case map_of d k of None \<Rightarrow> dflt | Some v \<Rightarrow> v)"

subsection \<open>Strings\<close>

definition is_space :: "char \<Rightarrow> bool" where
  "is_space c = (c \<in> set [CHR 0x09, CHR 0x0A, CHR 0x0B, CHR 0x0C, CHR 0x0D,
                            CHR 0x1C, CHR 0x1D, CHR 0x1E, CHR 0x1F, CHR 0x20])"

text \<open>\<^verbatim>\<open>s.strip()\<close>.\<close>

definition strip :: "string \<Rightarrow> string" where
  "strip s = rev (dropWhile is_space (rev (dropWhile is_space s)))"

fun starts_with :: "string \<Rightarrow> string \<Rightarrow> bool" where
  "starts_with [] s = True"
| "starts_with (c # cs) [] = False"
| "starts_with (c # cs) (d # ds) = (c = d \<and> starts_with cs ds)"

text \<open>\<^verbatim>\<open>needle in s\<close> on strings.\<close>

fun str_in :: "string \<Rightarrow> string \<Rightarrow> bool" where
  "str_in needle [] = (needle = [])"
| "str_in needle (c # cs) = (starts_with needle (c # cs) \<or> str_in needle cs)"

text \<open>
  \<^verbatim>\<open>s.split(sep)[0]\<close> and \<^verbatim>\<open>s.split(sep, 1)[1]\<close> for a non-empty separator that occurs
  in \<open>s\<close>: the text before, and the text after, the first occurrence.
\<close>

fun before_sep :: "string \<Rightarrow> string \<Rightarrow> string" where
  "before_sep sep [] = []"
| "before_sep sep (c # cs) = (if starts_with sep (c # cs) then [] else c # before_sep sep cs)"

fun after_sep :: "string \<Rightarrow> string \<Rightarrow> string" where
  "after_sep sep [] = []"
| "after_sep sep (c # cs) =
     (if starts_with sep (c # cs) then drop (length sep) (c # cs) else after_sep sep cs)"

definition upper_char :: "char \<Rightarrow> char" where
  "upper_char c =
     (if 97 \<le> (of_char c :: nat) \<and> (of_char c :: nat) \<le> 122
      then char_of ((of_char c :: nat) - 32) else c)"

text \<open>\<^verbatim>\<open>s.upper()\<close>.\<close>

definition upper :: "string \<Rightarrow> string" where
  "upper s = map upper_char s"

text \<open>\<^verbatim>\<open>str(n)\<close> for an integer: decimal digits, with a sign for negative numbers.\<close>

definition digit_char :: "nat \<Rightarrow> char" where
  "digit_char d = char_of (48 + d)"

function str_nat :: "nat \<Rightarrow> string" where
  "str_nat n = (if n < 10 then [digit_char n] else str_nat (n div 10) @ [digit_char (n mod 10)])"
  by pat_completeness auto
termination
  by (relation "measure id") auto

declare str_nat.simps [simp del]

definition str_int :: "int \<Rightarrow> string" where
  "str_int i = (if i < 0 then CHR ''-'' # str_nat (nat (- i)) else str_nat (nat i))"

text \<open>\<^verbatim>\<open>int(x)\<close> of a float truncates towards zero.\<close>

definition py_int :: "real \<Rightarrow> int" where
  "py_int x = (if 0 \<le> x then \<lfloor>x\<rfloor> else \<lceil>x\<rceil>)"

text \<open>
  \<^verbatim>\<open>os.path.join(dir, name)\<close> on POSIX: an absolute \<open>name\<close> replaces \<open>dir\<close>, and a
  separator is put between the two unless \<open>dir\<close> is empty or ends with one.
\<close>

definition path_join :: "string \<Rightarrow> string \<Rightarrow> string" where
  "path_join dir name =
     (if starts_with ''/'' name then name
      else if dir = [] \<or> last dir = CHR ''/'' then dir @ name
      else dir @ ''/'' @ name)"

subsection \<open>Parsed pages\<close>

text \<open>
  \<^verbatim>\<open>BeautifulSoup\<close> is a library: the model takes its answers as given. An element
  answers \<^verbatim>\<open>element.get(name)\<close> through \<open>attrs\<close> and \<^verbatim>\<open>element.select_one(sel)\<close> through
  \<open>sub_text\<close>, which holds the \<^verbatim>\<open>.text\<close> of the first match (the code reads nothing else
  of it). A parsed document answers \<^verbatim>\<open>soup.select(sel)\<close>, the \<^verbatim>\<open>.text\<close> of
  \<^verbatim>\<open>soup.select_one(sel)\<close>, the \<^verbatim>\<open>.text\<close> of \<^verbatim>\<open>soup.find('title')\<close>, and, for the link
  \<^verbatim>\<open>soup.select_one('.a-pagination .a-last a')\<close>, the \<^verbatim>\<open>class\<close> list of its parent.
\<close>

record element =
  attrs :: "string \<rightharpoonup> string"
  sub_text :: "string \<rightharpoonup> string"

record soup =
  select :: "string \<Rightarrow> element list"
  select_one_text :: "string \<rightharpoonup> string"
  page_title :: "string option"
  next_parent_classes :: "string list option"

text \<open>
  \<^verbatim>\<open>datetime.fromisoformat\<close> yields a naive or a timezone-aware point in time; the
  number is its distance in seconds from the origin of the local clock.
\<close>

datatype datetime = Naive real | Aware real

subsection \<open>Environment and world\<close>

text \<open>
  The environment gathers what the program cannot decide: the network, the clock and
  the library functions. \<open>net env n url\<close> is the outcome of the call of
  \<^verbatim>\<open>make_request(url)\<close> (the Fetcher with its retries) that is number \<open>n\<close> since the world
  began: the text of a response with status 200, or \<open>None\<close>. \<open>traf_fetch\<close> is
  \<^verbatim>\<open>trafilatura.fetch_url\<close> in the same way, \<open>title_match\<close> is group 1 of
  the regular-expression search for the page title in
  \<^verbatim>\<open>get_seller_name\<close>, \<open>clock env n\<close> is reading number \<open>n\<close> of
  \<^verbatim>\<open>time.time()\<close> or \<^verbatim>\<open>datetime.now()\<close>. Sleeping and the random choice of headers and
  delays change nothing that the model observes and are left out.

  The world is what a call can change: the cache files (path to content), the URLs
  handed to \<^verbatim>\<open>make_request\<close> and to \<^verbatim>\<open>trafilatura.fetch_url\<close> so far, oldest first, and
  the number of clock readings so far. Writing a cache file is taken to succeed.
\<close>

record env =
  net :: "nat \<Rightarrow> string \<Rightarrow> string option"
  traf_fetch :: "nat \<Rightarrow> string \<Rightarrow> string option"
  title_match :: "string \<Rightarrow> string option"
  clock :: "nat \<Rightarrow> real"
  json_loads :: "string \<Rightarrow> json option"
  json_dumps :: "json \<Rightarrow> string"
  fromisoformat :: "string \<Rightarrow> datetime option"
  isoformat :: "real \<Rightarrow> string"
  py_format :: "json \<Rightarrow> string"
  soup_of :: "string \<Rightarrow> soup"
  CACHE_DIR :: string

record world =
  files :: "string \<rightharpoonup> string"
  fetched :: "string list"
  downloads :: "string list"
  ticks :: nat

definition read_clock :: "env \<Rightarrow> world \<Rightarrow> real \<times> world" where
  "read_clock env w = (clock env (ticks w), w\<lparr>ticks := Suc (ticks w)\<rparr>)"

definition make_request :: "env \<Rightarrow> string \<Rightarrow> world \<Rightarrow> string option \<times> world" where
  "make_request env url w = (net env (length (fetched w)) url, w\<lparr>fetched := fetched w @ [url]\<rparr>)"

section \<open>Snapshot cache\<close>

text \<open>Both modules: \<^verbatim>\<open>os.path.join(CACHE_DIR, f"{seller_id}_{marketplace}.json")\<close>.\<close>

definition get_cache_path :: "env \<Rightarrow> string \<Rightarrow> string \<Rightarrow> string" where
  "get_cache_path env sid mk = path_join (CACHE_DIR env) (sid @ ''_'' @ mk @ ''.json'')"

subsection \<open>amazon\_scraper\<close>

text \<open>
  The body of the \<^verbatim>\<open>try\<close> in \<^verbatim>\<open>_get_from_cache\<close>: \<^verbatim>\<open>json.load\<close>, then
  \<^verbatim>\<open>cache_data.get('timestamp', 0)\<close> (only a dict has \<^verbatim>\<open>get\<close>), then
  \<^verbatim>\<open>time.time() - cache_time < 86400\<close>. \<open>Inr None\<close> is falling out of the \<^verbatim>\<open>if\<close>.
\<close>

definition basic_cache_try :: "env \<Rightarrow> string \<Rightarrow> world \<Rightarrow> (exn + dict option) \<times> world" where
  "basic_cache_try env content w =
     (case json_loads env content of
        None \<Rightarrow> (Inl JSONDecodeError, w)
      | Some (JObj cache_data) \<Rightarrow>
          (let cache_time = dict_get cache_data ''timestamp'' (JNum 0);
               (now, w1) = read_clock env w
           in case num_of cache_time of
                None \<Rightarrow> (Inl TypeError, w1)
              | Some t \<Rightarrow> if now - t < 86400 then (Inr (Some cache_data), w1) else (Inr None, w1))
      | Some _ \<Rightarrow> (Inl AttributeError, w))"

definition basic_get_from_cache :: "env \<Rightarrow> string \<Rightarrow> string \<Rightarrow> world \<Rightarrow> dict option \<times> world" where
  "basic_get_from_cache env sid mk w =
     (case files w (get_cache_path env sid mk) of
        None \<Rightarrow> (None, w)
      | Some content \<Rightarrow>
          (case basic_cache_try env content w of
             (Inl e, w1) \<Rightarrow> (None, w1)
           | (Inr r, w1) \<Rightarrow> (r, w1)))"

subsection \<open>enhanced\_amazon\_scraper\<close>

text \<open>
  The body of the \<^verbatim>\<open>try\<close> in \<^verbatim>\<open>get_from_cache\<close>, with \<^verbatim>\<open>max_age_hours = 12\<close> as every
  caller leaves it. \<^verbatim>\<open>fromisoformat\<close> raises \<^verbatim>\<open>TypeError\<close> on anything but a string and
  \<^verbatim>\<open>ValueError\<close> on a string it cannot read; subtracting an aware time from the naive
  \<^verbatim>\<open>datetime.now()\<close> raises \<^verbatim>\<open>TypeError\<close>.
\<close>

definition enh_cache_try :: "env \<Rightarrow> string \<Rightarrow> world \<Rightarrow> (exn + dict option) \<times> world" where
  "enh_cache_try env content w =
     (case json_loads env content of
        None \<Rightarrow> (Inl JSONDecodeError, w)
      | Some (JObj cache_data) \<Rightarrow>
          (case dict_get cache_data ''timestamp'' (JStr ''2000-01-01T00:00:00'') of
             JStr s \<Rightarrow>
               (case fromisoformat env s of
                  None \<Rightarrow> (Inl ValueError, w)
                | Some cache_time \<Rightarrow>
                    (let (now, w1) = read_clock env w
                     in case cache_time of
                          Aware t \<Rightarrow> (Inl TypeError, w1)
                        | Naive t \<Rightarrow>
                            if now - t > 12 * 3600 then (Inr None, w1)
                            else (Inr (Some cache_data), w1)))
           | _ \<Rightarrow> (Inl TypeError, w))
      | Some _ \<Rightarrow> (Inl AttributeError, w))"

definition enh_get_from_cache :: "env \<Rightarrow> string \<Rightarrow> string \<Rightarrow> world \<Rightarrow> dict option \<times> world" where
  "enh_get_from_cache env sid mk w =
     (case files w (get_cache_path env sid mk) of
        None \<Rightarrow> (None, w)
      | Some content \<Rightarrow>
          (case enh_cache_try env content w of
             (Inl e, w1) \<Rightarrow> (None, w1)
           | (Inr r, w1) \<Rightarrow> (r, w1)))"

section \<open>enhanced\_amazon\_scraper: query variants, extraction, walker\<close>

text \<open>
  A URL pattern is a format string with the fields \<^verbatim>\<open>{marketplace}\<close>, \<^verbatim>\<open>{seller_id}\<close>
  and \<^verbatim>\<open>{page}\<close>; it is kept as the list of its literal parts and fields, and
  \<open>format_url\<close> is \<^verbatim>\<open>url_pattern.format(marketplace=..., seller_id=..., page=...)\<close>.
\<close>

datatype piece = Lit string | Marketplace | SellerId | Page

type_synonym pattern = "piece list"

definition merchant_items :: "string \<Rightarrow> pattern" where
  "merchant_items refinement =
     [Lit ''https://www.amazon.'', Marketplace, Lit ''/s?i=merchant-items&me='', SellerId,
      Lit refinement, Lit ''&page='', Page]"

definition SELLER_URL_PATTERNS :: "pattern list" where
  "SELLER_URL_PATTERNS =
     [ [Lit ''https://www.amazon.'', Marketplace, Lit ''/s?i=merchant-items&me='', SellerId,
        Lit ''&page='', Page],
       [Lit ''https://www.amazon.'', Marketplace, Lit ''/s?me='', SellerId,
        Lit ''&marketplaceID=A1F83G8C2ARO7P&page='', Page],
       [Lit ''https://www.amazon.'', Marketplace, Lit ''/s?merchant='', SellerId,
        Lit ''&page='', Page],
       [Lit ''https://www.amazon.'', Marketplace, Lit ''/shops/'', SellerId, Lit ''/page/'', Page],
       [Lit ''https://www.amazon.'', Marketplace, Lit ''/stores/'', SellerId, Lit ''/page/'', Page],
       [Lit ''https://www.amazon.'', Marketplace, Lit ''/s?i=merchant-items&me='', SellerId,
        Lit ''&rh=p_6%3A'', SellerId, Lit ''&page='', Page],
       merchant_items ''&rh=n%3A65801031'',
       merchant_items ''&rh=n%3A66280031'',
       merchant_items ''&rh=n%3A117332031'',
       merchant_items ''&rh=n%3A560798'',
       merchant_items ''&s=price-desc-rank'',
       merchant_items ''&s=price-asc-rank'',
       merchant_items ''&s=date-desc-rank'',
       merchant_items ''&s=review-rank'',
       merchant_items ''&s=relevancerank'' ]"

fun render :: "string \<Rightarrow> string \<Rightarrow> nat \<Rightarrow> piece \<Rightarrow> string" where
  "render mk sid page (Lit s) = s"
| "render mk sid page Marketplace = mk"
| "render mk sid page SellerId = sid"
| "render mk sid page Page = str_nat page"

definition format_url :: "pattern \<Rightarrow> string \<Rightarrow> string \<Rightarrow> nat \<Rightarrow> string" where
  "format_url pat mk sid page = concat (map (render mk sid page) pat)"

subsection \<open>Seller name\<close>

text \<open>
  The loop shared by every ordered list of selectors: the stripped text of the first
  selector whose match has text left after stripping.
\<close>

fun first_text :: "(string \<rightharpoonup> string) \<Rightarrow> string list \<Rightarrow> string option" where
  "first_text f [] = None"
| "first_text f (selector # selectors) =
     (case f selector of
        None \<Rightarrow> first_text f selectors
      | Some t \<Rightarrow> if strip t \<noteq> [] then Some (strip t) else first_text f selectors)"

text \<open>\<^verbatim>\<open>get_seller_name(...) or "Unknown Seller"\<close>, in both modules.\<close>

definition or_unknown_seller :: "string option \<Rightarrow> string" where
  "or_unknown_seller name =
     (case name of
        None \<Rightarrow> ''Unknown Seller''
      | Some n \<Rightarrow> if n \<noteq> [] then n else ''Unknown Seller'')"

definition enh_name_selectors :: "string list" where
  "enh_name_selectors =
     [''#sellerName'', ''h1.a-size-large'', ''span.a-size-extra-large'', ''h1.a-spacing-none'']"

definition enh_get_seller_name :: "env \<Rightarrow> string \<Rightarrow> string \<Rightarrow> world \<Rightarrow> string option \<times> world" where
  "enh_get_seller_name env sid mk w =
     (let url = ''https://www.amazon.'' @ mk @ ''/sp?seller='' @ sid;
          (response, w1) = make_request env url w
      in case response of
           None \<Rightarrow> (None, w1)
         | Some text \<Rightarrow> (first_text (select_one_text (soup_of env text)) enh_name_selectors, w1))"

subsection \<open>Page extractor\<close>

record eproduct =
  e_asin :: json
  e_title :: string
  e_price :: "string option"
  e_link :: string
  e_seller_id :: string
  e_marketplace :: string
  e_source :: string

definition grid_selectors :: "string list" where
  "grid_selectors =
     [''div.s-result-list div.s-result-item'',
      ''div.sg-col-4-of-12'',
      ''div[data-component-type='' @ [CHR 0x27] @ ''s-search-result'' @ [CHR 0x27] @ '']'',
      ''div.rush-component.s-latency-cf-section'',
      ''.s-main-slot > div'']"

text \<open>The elements of the first selector that matches anything; none if no selector does.\<close>

fun first_selected :: "soup \<Rightarrow> string list \<Rightarrow> element list" where
  "first_selected sp [] = []"
| "first_selected sp (selector # selectors) =
     (if select sp selector \<noteq> [] then select sp selector else first_selected sp selectors)"

text \<open>
  The \<^verbatim>\<open>else\<close> branch of the ASIN extraction: \<^verbatim>\<open>data-component-props\<close> is decoded when it
  mentions \<^verbatim>\<open>asin\<close>; a decoding error, or a decoded value that is no dict, leaves
  \<^verbatim>\<open>asin = None\<close> (the bare \<^verbatim>\<open>except: pass\<close>).
\<close>

definition props_asin :: "env \<Rightarrow> element \<Rightarrow> json" where
  "props_asin env e =
     (case attrs e ''data-component-props'' of
        None \<Rightarrow> JNull
      | Some component_props \<Rightarrow>
          if component_props \<noteq> [] \<and> str_in ''asin'' component_props
          then (case json_loads env component_props of
                  Some (JObj data_props) \<Rightarrow> dict_get data_props ''asin'' JNull
                | _ \<Rightarrow> JNull)
          else JNull)"

definition extract_asin :: "env \<Rightarrow> element \<Rightarrow> json" where
  "extract_asin env e =
     (case attrs e ''data-asin'' of
        None \<Rightarrow> props_asin env e
      | Some data_asin \<Rightarrow> if data_asin \<noteq> [] then JStr data_asin else props_asin env e)"

definition title_selector :: string where
  "title_selector = ''.a-size-medium.a-color-base.a-text-normal, .a-size-base-plus.a-color-base.a-text-normal, h2 a.a-link-normal, h5 a''"

definition price_selector :: string where
  "price_selector = ''.a-price .a-offscreen, span.a-price span.a-offscreen''"

text \<open>\<^verbatim>\<open>f"{asin}"\<close>: a string is taken as it is, any other value is formatted by Python.\<close>

definition fmt :: "env \<Rightarrow> json \<Rightarrow> string" where
  "fmt env v = (case v of JStr s \<Rightarrow> s | _ \<Rightarrow> py_format env v)"

text \<open>One round of the loop over \<^verbatim>\<open>product_elements\<close>; \<open>None\<close> is \<^verbatim>\<open>continue\<close>.\<close>

definition extract_product :: "env \<Rightarrow> string \<Rightarrow> element \<Rightarrow> eproduct option" where
  "extract_product env sid e =
     (if (case sub_text e ''span.s-label-popover-default'' of
            None \<Rightarrow> False
          | Some t \<Rightarrow> str_in ''Sponsored'' t)
      then None
      else let asin = extract_asin env e
           in if \<not> truthy asin then None
              else Some \<lparr> e_asin = asin,
                          e_title = (case sub_text e title_selector of
                                       None \<Rightarrow> ''Unknown Title''
                                     | Some t \<Rightarrow> strip t),
                          e_price = (case sub_text e price_selector of
                                       None \<Rightarrow> None
                                     | Some t \<Rightarrow> Some (strip t)),
                          e_link = ''https://www.amazon.co.uk/dp/'' @ fmt env asin,
                          e_seller_id = sid,
                          e_marketplace = ''UK'',
                          e_source = ''enhanced_amazon'' \<rparr>)"

fun extract_elements :: "env \<Rightarrow> string \<Rightarrow> element list \<Rightarrow> eproduct list" where
  "extract_elements env sid [] = []"
| "extract_elements env sid (e # es) =
     (case extract_product env sid e of
        None \<Rightarrow> extract_elements env sid es
      | Some p \<Rightarrow> p # extract_elements env sid es)"

definition extract_products_from_search_page :: "env \<Rightarrow> string \<Rightarrow> string \<Rightarrow> eproduct list" where
  "extract_products_from_search_page env html sid =
     extract_elements env sid (first_selected (soup_of env html) grid_selectors)"

subsection \<open>Inventory walker\<close>

text \<open>
  \<^verbatim>\<open>all_products\<close> is a Python dict keyed by ASIN, kept in insertion order. A list or a
  dict is not hashable and cannot be a key (\<^verbatim>\<open>TypeError\<close>); \<^verbatim>\<open>True\<close> and \<^verbatim>\<open>1\<close>, and
  \<^verbatim>\<open>False\<close> and \<^verbatim>\<open>0\<close>, are the same key.
\<close>

type_synonym asin_dict = "(json \<times> eproduct) list"

fun hashable :: "json \<Rightarrow> bool" where
  "hashable (JArr xs) = False"
| "hashable (JObj kvs) = False"
| "hashable v = True"

fun dict_key :: "json \<Rightarrow> json" where
  "dict_key (JBool b) = JNum (if b then 1 else 0)"
| "dict_key v = v"

text \<open>
  \<^verbatim>\<open>for product in page_products: if product['asin'] not in all_products:
  all_products[product['asin']] = product\<close>
\<close>

fun add_new :: "asin_dict \<Rightarrow> eproduct list \<Rightarrow> exn + asin_dict" where
  "add_new all_products [] = Inr all_products"
| "add_new all_products (product # page_products) =
     (if \<not> hashable (e_asin product) then Inl TypeError
      else if dict_key (e_asin product) \<notin> set (map fst all_products)
      then add_new (all_products @ [(dict_key (e_asin product), product)]) page_products
      else add_new all_products page_products)"

text \<open>
  The loop \<^verbatim>\<open>for page in range(1, 8)\<close> on the pages still to visit; it carries
  \<^verbatim>\<open>all_products\<close> and \<^verbatim>\<open>pattern_products_count\<close>, and leaves on the first page without a
  response or without products.
\<close>

fun walk_pages ::
  "env \<Rightarrow> pattern \<Rightarrow> string \<Rightarrow> string \<Rightarrow> nat list \<Rightarrow> asin_dict \<Rightarrow> nat \<Rightarrow> world
     \<Rightarrow> (exn + asin_dict \<times> nat) \<times> world" where
  "walk_pages env pat mk sid [] all_products cnt w = (Inr (all_products, cnt), w)"
| "walk_pages env pat mk sid (page # pages) all_products cnt w =
     (case make_request env (format_url pat mk sid page) w of
        (None, w1) \<Rightarrow> (Inr (all_products, cnt), w1)
      | (Some text, w1) \<Rightarrow>
          (let page_products = extract_products_from_search_page env text sid
           in if page_products = [] then (Inr (all_products, cnt), w1)
              else (case add_new all_products page_products of
                      Inl err \<Rightarrow> (Inl err, w1)
                    | Inr all_products' \<Rightarrow>
                        walk_pages env pat mk sid pages all_products'
                          (cnt + length page_products) w1)))"

text \<open>The loop \<^verbatim>\<open>for page in range(8, 16)\<close>: the same without the count.\<close>

fun walk_extra ::
  "env \<Rightarrow> pattern \<Rightarrow> string \<Rightarrow> string \<Rightarrow> nat list \<Rightarrow> asin_dict \<Rightarrow> world
     \<Rightarrow> (exn + asin_dict) \<times> world" where
  "walk_extra env pat mk sid [] all_products w = (Inr all_products, w)"
| "walk_extra env pat mk sid (page # pages) all_products w =
     (case make_request env (format_url pat mk sid page) w of
        (None, w1) \<Rightarrow> (Inr all_products, w1)
      | (Some text, w1) \<Rightarrow>
          (let page_products = extract_products_from_search_page env text sid
           in if page_products = [] then (Inr all_products, w1)
              else (case add_new all_products page_products of
                      Inl err \<Rightarrow> (Inl err, w1)
                    | Inr all_products' \<Rightarrow> walk_extra env pat mk sid pages all_products' w1)))"

text \<open>The body of \<^verbatim>\<open>for pattern_idx, url_pattern in enumerate(SELLER_URL_PATTERNS)\<close>.\<close>

definition scan_pattern ::
  "env \<Rightarrow> pattern \<Rightarrow> string \<Rightarrow> string \<Rightarrow> asin_dict \<Rightarrow> world \<Rightarrow> (exn + asin_dict) \<times> world" where
  "scan_pattern env pat mk sid all_products w =
     (case walk_pages env pat mk sid [1..<8] all_products 0 w of
        (Inl err, w1) \<Rightarrow> (Inl err, w1)
      | (Inr (all_products', pattern_products_count), w1) \<Rightarrow>
          if pattern_products_count \<ge> 100
          then walk_extra env pat mk sid [8..<16] all_products' w1
          else (Inr all_products', w1))"

fun walk_patterns ::
  "env \<Rightarrow> pattern list \<Rightarrow> string \<Rightarrow> string \<Rightarrow> asin_dict \<Rightarrow> world \<Rightarrow> (exn + asin_dict) \<times> world" where
  "walk_patterns env [] mk sid all_products w = (Inr all_products, w)"
| "walk_patterns env (pat # pats) mk sid all_products w =
     (case scan_pattern env pat mk sid all_products w of
        (Inl err, w1) \<Rightarrow> (Inl err, w1)
      | (Inr all_products', w1) \<Rightarrow> walk_patterns env pats mk sid all_products' w1)"

text \<open>A product dict as it is returned and written to the cache.\<close>

definition eproduct_json :: "eproduct \<Rightarrow> json" where
  "eproduct_json p =
     JObj [(''asin'', e_asin p), (''title'', JStr (e_title p)),
           (''price'', case e_price p of None \<Rightarrow> JNull | Some t \<Rightarrow> JStr t),
           (''link'', JStr (e_link p)), (''seller_id'', JStr (e_seller_id p)),
           (''marketplace'', JStr (e_marketplace p)), (''source'', JStr (e_source p))]"

text \<open>\<^verbatim>\<open>save_to_cache\<close>: the timestamp is added, then the dict is dumped to the file.\<close>

definition enh_save_to_cache :: "env \<Rightarrow> string \<Rightarrow> string \<Rightarrow> dict \<Rightarrow> world \<Rightarrow> world" where
  "enh_save_to_cache env sid mk data w =
     (let (now, w1) = read_clock env w;
          data' = data @ [(''timestamp'', JStr (isoformat env now))]
      in w1\<lparr>files := (files w1)(get_cache_path env sid mk \<mapsto> json_dumps env (JObj data'))\<rparr>)"

text \<open>
  \<^verbatim>\<open>scan_seller_inventory\<close> after the cache: the seller name, the walk over all patterns,
  the list of the dict's values, the cache write.
\<close>

definition enh_fresh_scan ::
  "env \<Rightarrow> string \<Rightarrow> string \<Rightarrow> world \<Rightarrow> (exn + eproduct list \<times> string) \<times> world" where
  "enh_fresh_scan env sid mk w =
     (let (name, w1) = enh_get_seller_name env sid mk w;
          seller_name = or_unknown_seller name
      in case walk_patterns env SELLER_URL_PATTERNS mk sid [] w1 of
           (Inl err, w2) \<Rightarrow> (Inl err, w2)
         | (Inr all_products, w2) \<Rightarrow>
             (let product_list = map snd all_products;
                  cache_data = [(''seller_id'', JStr sid), (''seller_name'', JStr seller_name),
                                (''products'', JArr (map eproduct_json product_list)),
                                (''marketplace'', JStr mk)]
              in (Inr (product_list, seller_name), enh_save_to_cache env sid mk cache_data w2)))"

text \<open>
  \<^verbatim>\<open>scan_seller_inventory\<close>. A fresh cache entry with a \<^verbatim>\<open>products\<close> key is returned as
  it is, after \<^verbatim>\<open>len(products)\<close> has been formatted into the log line.
\<close>

definition scan_seller_inventory ::
  "env \<Rightarrow> string \<Rightarrow> string \<Rightarrow> bool \<Rightarrow> world \<Rightarrow> (exn + json \<times> json) \<times> world" where
  "scan_seller_inventory env sid mk force_refresh w =
     (let fresh = (\<lambda>w'. case enh_fresh_scan env sid mk w' of
                          (Inl err, w2) \<Rightarrow> (Inl err, w2)
                        | (Inr (product_list, seller_name), w2) \<Rightarrow>
                            (Inr (JArr (map eproduct_json product_list), JStr seller_name), w2))
      in if \<not> force_refresh
         then (case enh_get_from_cache env sid mk w of
                 (Some cache_data, w1) \<Rightarrow>
                   (case map_of cache_data ''products'' of
                      Some products \<Rightarrow>
                        (case py_len products of
                           Inl err \<Rightarrow> (Inl err, w1)
                         | Inr n \<Rightarrow>
                             (Inr (products, dict_get cache_data ''seller_name'' (JStr ''Unknown'')), w1))
                    | None \<Rightarrow> fresh w1)
               | (None, w1) \<Rightarrow> fresh w1)
         else fresh w)"

text \<open>The entry point \<^verbatim>\<open>get_seller_products\<close>: any exception of the scan becomes \<^verbatim>\<open>[]\<close>.\<close>

definition enh_get_seller_products ::
  "env \<Rightarrow> string \<Rightarrow> string \<Rightarrow> bool \<Rightarrow> world \<Rightarrow> (exn + json) \<times> world" where
  "enh_get_seller_products env sid mk force_refresh w =
     (case scan_seller_inventory env sid mk force_refresh w of
        (Inl err, w1) \<Rightarrow> (Inr (JArr []), w1)
      | (Inr (products, seller_name), w1) \<Rightarrow> (Inr products, w1))"

section \<open>amazon\_scraper: query variants, extraction, walker\<close>

text \<open>
  \<^verbatim>\<open>self.base_url\<close> of a scraper made for a marketplace. The constructor fetches nothing:
  the list of proxies is empty.
\<close>

definition base_url :: "string \<Rightarrow> string" where
  "base_url mk = ''https://www.amazon.'' @ mk"

text \<open>
  \<^verbatim>\<open>urls_to_try\<close>, built from \<^verbatim>\<open>self.base_url\<close>, the seller and, in the ninth entry, the
  reading \<open>now\<close> of \<^verbatim>\<open>time.time()\<close>.
\<close>

definition urls_to_try :: "string \<Rightarrow> string \<Rightarrow> real \<Rightarrow> string list" where
  "urls_to_try mk sid now =
     [base_url mk @ ''/s?i=merchant-items&me='' @ sid,
      base_url mk @ ''/s?me='' @ sid @ ''&marketplaceID=A1F83G8C2ARO7P'',
      base_url mk @ ''/s?k=*&me='' @ sid,
      base_url mk @ ''/s?rh=n%3A%2Cp_6%3A'' @ sid,
      base_url mk @ ''/s?merchant='' @ sid,
      base_url mk @ ''/s?rh=p_4%3A'' @ sid,
      base_url mk @ ''/shops/'' @ sid,
      base_url mk @ ''/sp?seller='' @ sid,
      base_url mk @ ''/s?i=merchant-items&me='' @ sid @ ''&qid='' @ str_int (py_int now),
      base_url mk @ ''/s?i=merchant-items&me='' @ sid @ ''&rh=n%3A117332031'',
      base_url mk @ ''/s?i=merchant-items&me='' @ sid @ ''&rh=n%3A560798'',
      base_url mk @ ''/s?i=merchant-items&me='' @ sid @ ''&rh=n%3A1025612'',
      base_url mk @ ''/s?i=merchant-items&me='' @ sid @ ''&rh=n%3A560800'',
      base_url mk @ ''/s?i=merchant-items&me='' @ sid @ ''&rh=n%3A11052681'']"

subsection \<open>Seller name\<close>

definition basic_name_selectors :: "string list" where
  "basic_name_selectors =
     [''h1#sellerName'', ''span.a-size-extra-large.a-text-bold'', ''h1.a-size-large'', ''h1 span'']"

text \<open>The separators tried on the page title; the last one is the en dash in UTF-8.\<close>

definition title_separators :: "string list" where
  "title_separators = ['':'', ''|'', ''-'', [CHR 0xE2, CHR 0x80, CHR 0x93]]"

fun split_title :: "string \<Rightarrow> string list \<Rightarrow> string option" where
  "split_title title_text [] = None"
| "split_title title_text (separator # separators) =
     (if str_in separator title_text then Some (strip (before_sep separator title_text))
      else split_title title_text separators)"

text \<open>
  \<^verbatim>\<open>get_seller_name\<close> of the scraper. The \<^verbatim>\<open>trafilatura\<close> attempt comes first and any
  exception in it is swallowed; then the storefront page is requested and searched.
\<close>

definition basic_get_seller_name :: "env \<Rightarrow> string \<Rightarrow> string \<Rightarrow> world \<Rightarrow> string option \<times> world" where
  "basic_get_seller_name env mk sid w =
     (let url = base_url mk @ ''/sp?seller='' @ sid;
          downloaded = traf_fetch env (length (downloads w)) url;
          w1 = w\<lparr>downloads := downloads w @ [url]\<rparr>;
          matched = (case downloaded of
                       None \<Rightarrow> None
                     | Some content \<Rightarrow> if content \<noteq> [] then title_match env content else None)
      in case matched of
           Some g \<Rightarrow> (Some (strip g), w1)
         | None \<Rightarrow>
             (case make_request env url w1 of
                (None, w2) \<Rightarrow> (None, w2)
              | (Some text, w2) \<Rightarrow>
                  (let sp = soup_of env text
                   in case first_text (select_one_text sp) basic_name_selectors of
                        Some name \<Rightarrow> (Some name, w2)
                      | None \<Rightarrow>
                          (case page_title sp of
                             None \<Rightarrow> (None, w2)
                           | Some title_text \<Rightarrow>
                               (case split_title title_text title_separators of
                                  Some name \<Rightarrow> (Some name, w2)
                                | None \<Rightarrow>
                                    if str_in ''Amazon'' title_text \<and> str_in '':'' title_text
                                    then (Some (strip (after_sep '':'' title_text)), w2)
                                    else (None, w2))))))"

subsection \<open>Page extractor\<close>

record product =
  asin :: string
  title :: string
  link :: string
  marketplace :: string
  seller_id :: string
  seller_name :: string
  price_text :: "string option"

definition product_selectors :: "string list" where
  "product_selectors =
     [''div[data-asin]:not([data-asin='' @ [CHR 0x22, CHR 0x22] @ ''])'',
      ''.s-result-item[data-asin]:not([data-asin='' @ [CHR 0x22, CHR 0x22] @ ''])'',
      ''.sg-col-inner div[data-asin]'',
      ''div.a-section[data-asin]'',
      ''li.a-carousel-card[data-asin]'',
      ''div[data-component-type='' @ [CHR 0x22] @ ''s-search-result'' @ [CHR 0x22] @ '']'',
      ''div.rush-component[data-asin]'',
      ''.s-main-slot div[data-asin]'',
      ''.widgetId'' @ [CHR 0x5C] @ ''=search-results div[data-asin]'',
      ''div[cel_widget_id*='' @ [CHR 0x22] @ ''MAIN-SEARCH_RESULTS'' @ [CHR 0x22] @ '']'',
      ''div.s-card-container'']"

definition title_selectors :: "string list" where
  "title_selectors = [''.a-text-normal'', ''h2 a span'', ''.a-size-base-plus'', ''.a-size-medium'']"

definition price_selectors :: "string list" where
  "price_selectors = [''.a-price .a-offscreen'', ''.a-price'', ''.a-color-price'']"

text \<open>
  The loop \<^verbatim>\<open>for element in product_elements\<close>, carrying \<^verbatim>\<open>page_products\<close>: an element is
  skipped when its \<^verbatim>\<open>data-asin\<close> is missing, empty or not 10 characters long, and when no
  title selector has text; a product whose ASIN is already in \<^verbatim>\<open>page_products\<close> is not
  added.
\<close>

fun process_elements ::
  "string \<Rightarrow> string \<Rightarrow> string \<Rightarrow> element list \<Rightarrow> product list \<Rightarrow> product list" where
  "process_elements mk sid sname [] page_products = page_products"
| "process_elements mk sid sname (e # es) page_products =
     (let a = (case attrs e ''data-asin'' of None \<Rightarrow> [] | Some v \<Rightarrow> v)
      in if a = [] \<or> length a \<noteq> 10 then process_elements mk sid sname es page_products
         else (case first_text (sub_text e) title_selectors of
                 None \<Rightarrow> process_elements mk sid sname es page_products
               | Some t \<Rightarrow>
                   (let p = \<lparr> asin = a, title = t, link = base_url mk @ ''/dp/'' @ a,
                              marketplace = ''Amazon '' @ upper mk, seller_id = sid,
                              seller_name = sname,
                              price_text = first_text (sub_text e) price_selectors \<rparr>
                    in if \<not> (\<exists>q \<in> set page_products. asin q = a)
                       then process_elements mk sid sname es (page_products @ [p])
                       else process_elements mk sid sname es page_products)))"

subsection \<open>Inventory walker\<close>

text \<open>
  The loop \<^verbatim>\<open>while more_pages and page <= 100\<close> for one entry of \<^verbatim>\<open>urls_to_try\<close>. It
  carries \<^verbatim>\<open>page\<close>, \<^verbatim>\<open>page_products\<close> and \<^verbatim>\<open>total_pages_crawled\<close>; \<^verbatim>\<open>more_pages\<close> is true
  whenever the loop is entered again, and every \<^verbatim>\<open>break\<close> and \<^verbatim>\<open>more_pages = False\<close> is
  a return here.
\<close>

function page_loop ::
  "env \<Rightarrow> string \<Rightarrow> string \<Rightarrow> string \<Rightarrow> string \<Rightarrow> nat \<Rightarrow> product list \<Rightarrow> nat \<Rightarrow> world
     \<Rightarrow> (product list \<times> nat) \<times> world" where
  "page_loop env mk sid sname url0 page page_products crawled w =
     (if page \<le> 100
      then (case make_request env (if page > 1 then url0 @ ''&page='' @ str_nat page else url0) w of
              (None, w1) \<Rightarrow> ((page_products, crawled), w1)
            | (Some text, w1) \<Rightarrow>
                if str_in (''Sorry! We couldn'' @ [CHR 0x27] @ ''t find that page'') text
                   \<or> str_in (''We'' @ [CHR 0x27] @ ''re sorry'') text
                then ((page_products, crawled), w1)
                else (let sp = soup_of env text;
                          product_elements = first_selected sp product_selectors
                      in if product_elements = [] then ((page_products, crawled), w1)
                         else (let page_products' =
                                     process_elements mk sid sname product_elements page_products
                               in case next_parent_classes sp of
                                    None \<Rightarrow> ((page_products', crawled + 1), w1)
                                  | Some parent_classes \<Rightarrow>
                                      if ''a-disabled'' \<in> set parent_classes
                                      then ((page_products', crawled + 1), w1)
                                      else page_loop env mk sid sname url0 (page + 1)
                                             page_products' (crawled + 1) w1)))
      else ((page_products, crawled), w))"
  by pat_completeness auto
termination
  by (relation "measure (\<lambda>(env, mk, sid, sname, url0, page, rest). 101 - page)") auto

declare page_loop.simps [simp del]

text \<open>
  \<^verbatim>\<open>for product in page_products: if not any(p['asin'] == product['asin'] for p in
  products): products.append(product)\<close>
\<close>

fun add_unique :: "product list \<Rightarrow> product list \<Rightarrow> product list" where
  "add_unique products [] = products"
| "add_unique products (p # page_products) =
     (if \<not> (\<exists>q \<in> set products. asin q = asin p)
      then add_unique (products @ [p]) page_products
      else add_unique products page_products)"

text \<open>The loop \<^verbatim>\<open>for base_url in urls_to_try\<close>.\<close>

fun url_loop ::
  "env \<Rightarrow> string \<Rightarrow> string \<Rightarrow> string \<Rightarrow> string list \<Rightarrow> product list \<Rightarrow> nat \<Rightarrow> world
     \<Rightarrow> (product list \<times> nat) \<times> world" where
  "url_loop env mk sid sname [] products crawled w = ((products, crawled), w)"
| "url_loop env mk sid sname (url0 # urls) products crawled w =
     (case page_loop env mk sid sname url0 1 [] crawled w of
        ((page_products, crawled'), w1) \<Rightarrow>
          url_loop env mk sid sname urls (add_unique products page_products) crawled' w1)"

definition product_json :: "product \<Rightarrow> json" where
  "product_json p =
     JObj ([(''asin'', JStr (asin p)), (''title'', JStr (title p)), (''link'', JStr (link p)),
            (''marketplace'', JStr (marketplace p)), (''seller_id'', JStr (seller_id p)),
            (''seller_name'', JStr (seller_name p))]
           @ (case price_text p of None \<Rightarrow> [] | Some t \<Rightarrow> [(''price_text'', JStr t)]))"

text \<open>\<^verbatim>\<open>_save_to_cache\<close>.\<close>

definition basic_save_to_cache :: "env \<Rightarrow> string \<Rightarrow> string \<Rightarrow> dict \<Rightarrow> world \<Rightarrow> world" where
  "basic_save_to_cache env sid mk data w =
     (let (now, w1) = read_clock env w;
          data' = data @ [(''timestamp'', JNum now)]
      in w1\<lparr>files := (files w1)(get_cache_path env sid mk \<mapsto> json_dumps env (JObj data'))\<rparr>)"

text \<open>
  \<^verbatim>\<open>AmazonSellerScraper.get_seller_products\<close> after the cache: the URL list, the seller
  name, the walk, and the cache write when anything was found.
\<close>

definition basic_fresh_scan :: "env \<Rightarrow> string \<Rightarrow> string \<Rightarrow> world \<Rightarrow> product list \<times> world" where
  "basic_fresh_scan env mk sid w =
     (let (now, w1) = read_clock env w;
          (name, w2) = basic_get_seller_name env mk sid w1;
          sname = or_unknown_seller name
      in case url_loop env mk sid sname (urls_to_try mk sid now) [] 0 w2 of
           ((products, total_pages_crawled), w3) \<Rightarrow>
             if products \<noteq> []
             then (let (last_updated, w4) = read_clock env w3;
                       data = [(''seller_id'', JStr sid), (''seller_name'', JStr sname),
                               (''products'', JArr (map product_json products)),
                               (''product_count'', JNum (real (length products))),
                               (''last_updated'', JNum last_updated),
                               (''pages_crawled'', JNum (real total_pages_crawled))]
                   in (products, basic_save_to_cache env sid mk data w4))
             else (products, w3))"

text \<open>
  \<^verbatim>\<open>AmazonSellerScraper.get_seller_products\<close>. A fresh, non-empty cache dict answers the
  call with its \<^verbatim>\<open>products\<close> entry, or \<^verbatim>\<open>[]\<close> when it has none, after the length of that
  value has been formatted into the log line.
\<close>

definition scraper_get_seller_products ::
  "env \<Rightarrow> string \<Rightarrow> string \<Rightarrow> bool \<Rightarrow> world \<Rightarrow> (exn + json) \<times> world" where
  "scraper_get_seller_products env mk sid force_refresh w =
     (let fresh = (\<lambda>w'. case basic_fresh_scan env mk sid w' of
                          (products, w2) \<Rightarrow> (Inr (JArr (map product_json products)), w2))
      in if \<not> force_refresh
         then (case basic_get_from_cache env sid mk w of
                 (Some cache_data, w1) \<Rightarrow>
                   if cache_data \<noteq> []
                   then (case py_len (dict_get cache_data ''products'' (JArr [])) of
                           Inl err \<Rightarrow> (Inl err, w1)
                         | Inr n \<Rightarrow> (Inr (dict_get cache_data ''products'' (JArr [])), w1))
                   else fresh w1
               | (None, w1) \<Rightarrow> fresh w1)
         else fresh w)"

text \<open>The module's entry point \<^verbatim>\<open>get_seller_products\<close>: any exception becomes \<^verbatim>\<open>[]\<close>.\<close>

definition basic_get_seller_products ::
  "env \<Rightarrow> string \<Rightarrow> string \<Rightarrow> bool \<Rightarrow> world \<Rightarrow> (exn + json) \<times> world" where
  "basic_get_seller_products env sid mk force_refresh w =
     (case scraper_get_seller_products env mk sid force_refresh w of
        (Inl err, w1) \<Rightarrow> (Inr (JArr []), w1)
      | (Inr products, w1) \<Rightarrow> (Inr products, w1))"

section \<open>Notions of the specification and test doubles\<close>

text \<open>
  What a stored cache entry parses to: the snapshot (a dict) and its capture time.
  \<open>None\<close> when the content is no JSON, is no dict, or carries a timestamp the module
  cannot use. A missing timestamp counts as the module's default (the epoch, or the
  first moment of 2000).
\<close>

definition basic_entry :: "env \<Rightarrow> string \<Rightarrow> (dict \<times> real) option" where
  "basic_entry env content =
     (case json_loads env content of
        Some (JObj d) \<Rightarrow> (case num_of (dict_get d ''timestamp'' (JNum 0)) of
                            None \<Rightarrow> None | Some t \<Rightarrow> Some (d, t))
      | _ \<Rightarrow> None)"

definition enh_entry :: "env \<Rightarrow> string \<Rightarrow> (dict \<times> real) option" where
  "enh_entry env content =
     (case json_loads env content of
        Some (JObj d) \<Rightarrow>
          (case dict_get d ''timestamp'' (JStr ''2000-01-01T00:00:00'') of
             JStr s \<Rightarrow> (case fromisoformat env s of Some (Naive t) \<Rightarrow> Some (d, t) | _ \<Rightarrow> None)
           | _ \<Rightarrow> None)
      | _ \<Rightarrow> None)"

text \<open>
  A stub environment: a given network, page parser and JSON decoder, a clock that shows
  \<open>now\<close> at every reading, the one timestamp \<^verbatim>\<open>T0\<close> (the origin of the clock), and no
  answer from \<^verbatim>\<open>trafilatura\<close>.
\<close>

definition stub_env ::
  "(nat \<Rightarrow> string \<Rightarrow> string option) \<Rightarrow> (string \<Rightarrow> soup) \<Rightarrow> (string \<Rightarrow> json option) \<Rightarrow> real \<Rightarrow> env" where
  "stub_env n sp jl now =
     \<lparr> net = n, traf_fetch = (\<lambda>i url. None), title_match = (\<lambda>content. None),
       clock = (\<lambda>i. now), json_loads = jl, json_dumps = (\<lambda>v. ''{}''),
       fromisoformat = (\<lambda>s. if s = ''T0'' then Some (Naive 0) else None),
       isoformat = (\<lambda>t. ''T0''), py_format = (\<lambda>v. ''?''), soup_of = sp,
       CACHE_DIR = ''cache'' \<rparr>"

definition no_soup :: soup where
  "no_soup = \<lparr> select = (\<lambda>sel. []), select_one_text = Map.empty, page_title = None,
               next_parent_classes = None \<rparr>"

text \<open>A world whose only cache file is the one of seller \<^verbatim>\<open>S2\<close> on \<^verbatim>\<open>co.uk\<close>.\<close>

definition cache_world :: "string \<Rightarrow> world" where
  "cache_world content =
     \<lparr> files = [''cache/S2_co.uk.json'' \<mapsto> content], fetched = [], downloads = [], ticks = 0 \<rparr>"

text \<open>A decoder that reads the content \<^verbatim>\<open>E\<close> as the given value and nothing else.\<close>

definition one_loads :: "json \<Rightarrow> string \<Rightarrow> json option" where
  "one_loads v content = (if content = ''E'' then Some v else None)"


text \<open>
  Deduplication as the specification words it: going through the records in the order
  in which they are met, a record is kept when its identifier was not seen before and
  discarded otherwise. \<open>unseen key seen xs\<close> starts with the identifiers \<open>seen\<close>.
\<close>

fun unseen :: "('a \<Rightarrow> 'k) \<Rightarrow> 'k set \<Rightarrow> 'a list \<Rightarrow> 'a list" where
  "unseen key seen [] = []"
| "unseen key seen (x # xs) =
     (if key x \<in> seen then unseen key seen xs else x # unseen key (insert (key x) seen) xs)"

definition first_seen :: "('a \<Rightarrow> 'k) \<Rightarrow> 'a list \<Rightarrow> 'a list" where
  "first_seen key xs = unseen key {} xs"

text \<open>
  The records met during a walk, read off the request log: \<open>urls\<close> are the URLs
  requested from request number \<open>n\<close> on, and \<open>records text\<close> are the records that the
  page \<open>text\<close> offers; a request without a response offers none.
\<close>

definition seen_log :: "env \<Rightarrow> (string \<Rightarrow> 'a list) \<Rightarrow> nat \<Rightarrow> string list \<Rightarrow> 'a list" where
  "seen_log env records n urls =
     concat (map (\<lambda>(i, url). case net env i url of None \<Rightarrow> [] | Some text \<Rightarrow> records text)
                 (List.enumerate n urls))"

text \<open>
  \<^verbatim>\<open>amazon_scraper\<close>: the record that one element offers (\<open>None\<close> when the loop skips
  it), and the records that one page offers (none when the page carries a marker of an
  invalid storefront).
\<close>

definition element_product :: "string \<Rightarrow> string \<Rightarrow> string \<Rightarrow> element \<Rightarrow> product option" where
  "element_product mk sid sname e =
     (case attrs e ''data-asin'' of
        None \<Rightarrow> None
      | Some a \<Rightarrow>
          if length a \<noteq> 10 then None
          else (case first_text (sub_text e) title_selectors of
                  None \<Rightarrow> None
                | Some t \<Rightarrow>
                    Some \<lparr> asin = a, title = t, link = base_url mk @ ''/dp/'' @ a,
                           marketplace = ''Amazon '' @ upper mk, seller_id = sid,
                           seller_name = sname,
                           price_text = first_text (sub_text e) price_selectors \<rparr>))"

definition invalid_marker :: "string \<Rightarrow> bool" where
  "invalid_marker text =
     (str_in (''Sorry! We couldn'' @ [CHR 0x27] @ ''t find that page'') text
      \<or> str_in (''We'' @ [CHR 0x27] @ ''re sorry'') text)"

definition basic_page_records :: "env \<Rightarrow> string \<Rightarrow> string \<Rightarrow> string \<Rightarrow> string \<Rightarrow> product list" where
  "basic_page_records env mk sid sname text =
     (if invalid_marker text then []
      else List.map_filter (element_product mk sid sname)
             (first_selected (soup_of env text) product_selectors))"

text \<open>The URL of a page of one entry of \<^verbatim>\<open>urls_to_try\<close>.\<close>

definition basic_page_url :: "string \<Rightarrow> nat \<Rightarrow> string" where
  "basic_page_url url0 page = (if page > 1 then url0 @ ''&page='' @ str_nat page else url0)"

text \<open>Whether the pagination of a page ends the walk: no next link, or a disabled one.\<close>

definition last_page :: "soup \<Rightarrow> bool" where
  "last_page sp =
     (case next_parent_classes sp of None \<Rightarrow> True | Some cls \<Rightarrow> ''a-disabled'' \<in> set cls)"

text \<open>
  \<^verbatim>\<open>enhanced_amazon_scraper\<close>: the key under which a record enters \<^verbatim>\<open>all_products\<close>,
  and the records that one page offers.
\<close>

definition asin_key :: "eproduct \<Rightarrow> json" where
  "asin_key p = dict_key (e_asin p)"

definition enh_page_records :: "env \<Rightarrow> string \<Rightarrow> string \<Rightarrow> eproduct list" where
  "enh_page_records env sid body = extract_products_from_search_page env body sid"

text \<open>
  The records met by one whole scan, in the order in which they were met: the pages
  are those requested after the request for the seller name.
\<close>

definition enh_scan_records :: "env \<Rightarrow> string \<Rightarrow> string \<Rightarrow> world \<Rightarrow> eproduct list" where
  "enh_scan_records env sid mk w =
     seen_log env (enh_page_records env sid) (Suc (length (fetched w)))
       (drop (Suc (length (fetched w))) (fetched (snd (enh_fresh_scan env sid mk w))))"

definition basic_scan_records :: "env \<Rightarrow> string \<Rightarrow> string \<Rightarrow> world \<Rightarrow> product list" where
  "basic_scan_records env mk sid w =
     (let (now, w1) = read_clock env w;
          (name, w2) = basic_get_seller_name env mk sid w1
      in seen_log env (basic_page_records env mk sid (or_unknown_seller name))
           (length (fetched w2))
           (drop (length (fetched w2)) (fetched (snd (basic_fresh_scan env mk sid w)))))"

text \<open>The URL of the storefront page that \<^verbatim>\<open>get_seller_name\<close> of the enhanced module requests.\<close>

definition enh_name_url :: "string \<Rightarrow> string \<Rightarrow> string" where
  "enh_name_url mk sid = ''https://www.amazon.'' @ mk @ ''/sp?seller='' @ sid"

text \<open>A world with no cache file and no request made, and an environment in which
  every request fails and no content can be decoded.\<close>

definition empty_world :: world where
  "empty_world = \<lparr> files = Map.empty, fetched = [], downloads = [], ticks = 0 \<rparr>"

definition dead_env :: env where
  "dead_env = stub_env (\<lambda>i u. None) (\<lambda>t. no_soup) (\<lambda>c. None) 0"

text \<open>
  Test pages. An element with an ASIN and a title (found by the first title selector
  of either module), a page on which every selector finds the given elements and
  which has no next link, and the records the two modules make of such an element for
  seller \<^verbatim>\<open>S1\<close> on \<^verbatim>\<open>co.uk\<close> when the seller name is unresolved.
\<close>

definition item :: "string \<Rightarrow> string \<Rightarrow> element" where
  "item a t =
     \<lparr> attrs = [''data-asin'' \<mapsto> a],
       sub_text = (\<lambda>sel. if sel = ''.a-text-normal'' \<or> sel = title_selector then Some t else None) \<rparr>"

definition page_of :: "element list \<Rightarrow> soup" where
  "page_of es = \<lparr> select = (\<lambda>sel. es), select_one_text = Map.empty, page_title = None,
                  next_parent_classes = None \<rparr>"

definition enh_record :: "string \<Rightarrow> string \<Rightarrow> eproduct" where
  "enh_record a t =
     \<lparr> e_asin = JStr a, e_title = t, e_price = None,
       e_link = ''https://www.amazon.co.uk/dp/'' @ a, e_seller_id = ''S1'',
       e_marketplace = ''UK'', e_source = ''enhanced_amazon'' \<rparr>"

definition basic_record :: "string \<Rightarrow> string \<Rightarrow> product" where
  "basic_record a t =
     \<lparr> asin = a, title = t, link = ''https://www.amazon.co.uk/dp/'' @ a,
       marketplace = ''Amazon CO.UK'', seller_id = ''S1'', seller_name = ''Unknown Seller'',
       price_text = None \<rparr>"

text \<open>
  The scenario of the specification: the request for the seller name fails; the first
  variant answers with a page of two items and then with an empty page; the second
  variant answers with a page that repeats the first item under another title; every
  later request fails.
\<close>

definition s1_net :: "nat \<Rightarrow> string \<Rightarrow> string option" where
  "s1_net i url =
     (if i = 1 then Some ''P1'' else if i = 2 then Some ''P0'' else if i = 3 then Some ''P2''
      else None)"

definition s1_soup :: "string \<Rightarrow> soup" where
  "s1_soup body =
     (if body = ''P1'' then page_of [item ''B000000001'' ''one'', item ''B000000002'' ''two'']
      else if body = ''P2'' then page_of [item ''B000000001'' ''dup'']
      else no_soup)"

definition s1_env :: env where
  "s1_env = stub_env s1_net s1_soup (\<lambda>c. None) 0"

text \<open>The URL of the storefront page that \<^verbatim>\<open>get_seller_name\<close> of the scraper requests.\<close>

definition basic_name_url :: "string \<Rightarrow> string \<Rightarrow> string" where
  "basic_name_url mk sid = base_url mk @ ''/sp?seller='' @ sid"



text \<open>An element with an ASIN and nothing else: no selector finds anything in it.\<close>

definition bare_item :: "string \<Rightarrow> element" where
  "bare_item a = \<lparr> attrs = [''data-asin'' \<mapsto> a], sub_text = Map.empty \<rparr>"

text \<open>An environment in which every page shows the given elements and every request fails.\<close>

definition page_env :: "element list \<Rightarrow> env" where
  "page_env es = stub_env (\<lambda>i u. None) (\<lambda>body. page_of es) (\<lambda>c. None) 0"

text \<open>
  The sequence of the query generator: every URL a walk may request, in the order of
  the walk (variants in their order, pages ascending up to the highest ceiling). In
  \<^verbatim>\<open>amazon_scraper\<close> it is built from the reading \<open>now\<close> of the clock as well.
\<close>

definition enh_candidate_urls :: "string \<Rightarrow> string \<Rightarrow> string list" where
  "enh_candidate_urls mk sid =
     concat (map (\<lambda>pat. map (format_url pat mk sid) [1..<16]) SELLER_URL_PATTERNS)"

definition basic_candidate_urls :: "string \<Rightarrow> string \<Rightarrow> real \<Rightarrow> string list" where
  "basic_candidate_urls mk sid now =
     concat (map (\<lambda>url0. map (basic_page_url url0) [1..<101]) (urls_to_try mk sid now))"

text \<open>
  A page that shows one item a hundred times, in a world where the first request is
  answered with it and every later request fails.
\<close>

definition c9_env :: env where
  "c9_env = stub_env (\<lambda>i u. if i = 0 then Some ''P100'' else None)
              (\<lambda>body. page_of (replicate 100 (item ''B000000001'' ''one''))) (\<lambda>c. None) 0"

section \<open>Helper lemmas\<close>

lemma stub_env_sel [simp]:
  "net (stub_env n sp jl now) = n"
  "traf_fetch (stub_env n sp jl now) = (\<lambda>i url. None)"
  "title_match (stub_env n sp jl now) = (\<lambda>content. None)"
  "clock (stub_env n sp jl now) = (\<lambda>i. now)"
  "json_loads (stub_env n sp jl now) = jl"
  "json_dumps (stub_env n sp jl now) = (\<lambda>v. ''{}'')"
  "fromisoformat (stub_env n sp jl now) = (\<lambda>s. if s = ''T0'' then Some (Naive 0) else None)"
  "isoformat (stub_env n sp jl now) = (\<lambda>t. ''T0'')"
  "py_format (stub_env n sp jl now) = (\<lambda>v. ''?'')"
  "soup_of (stub_env n sp jl now) = sp"
  "CACHE_DIR (stub_env n sp jl now) = ''cache''"
  by (simp_all add: stub_env_def)

lemma cache_world_sel [simp]:
  "files (cache_world c) = [''cache/S2_co.uk.json'' \<mapsto> c]"
  "fetched (cache_world c) = []"
  "downloads (cache_world c) = []"
  "ticks (cache_world c) = 0"
  by (simp_all add: cache_world_def)

lemma cache_path_S2:
  "get_cache_path (stub_env n sp jl now) ''S2'' ''co.uk'' = ''cache/S2_co.uk.json''"
  by (simp add: get_cache_path_def path_join_def)

subsection \<open>Cache lookup\<close>



lemma basic_lookup_hit:
  assumes "files w (get_cache_path env sid mk) = Some c" "basic_entry env c = Some (d, t)"
          "clock env (ticks w) - t < 86400"
  shows "basic_get_from_cache env sid mk w = (Some d, w\<lparr>ticks := Suc (ticks w)\<rparr>)"
  using assms
  by (auto simp: basic_get_from_cache_def basic_cache_try_def basic_entry_def read_clock_def
           split: option.splits json.splits prod.splits sum.splits)

lemma enh_lookup_hit:
  assumes "files w (get_cache_path env sid mk) = Some c" "enh_entry env c = Some (d, t)"
          "clock env (ticks w) - t \<le> 12 * 3600"
  shows "enh_get_from_cache env sid mk w = (Some d, w\<lparr>ticks := Suc (ticks w)\<rparr>)"
  using assms
  by (auto simp: enh_get_from_cache_def enh_cache_try_def enh_entry_def read_clock_def
           split: option.splits json.splits prod.splits sum.splits datetime.splits)

subsection \<open>First-seen deduplication\<close>

lemma unseen_append:
  "unseen key seen (xs @ ys) = unseen key seen xs @ unseen key (seen \<union> key ` set xs) ys"
  by (induction xs arbitrary: seen) (auto simp: insert_absorb)

lemma keys_unseen: "key ` set (unseen key seen xs) = key ` set xs - seen"
  by (induction xs arbitrary: seen) auto


lemma unseen_disjoint: "key ` set (unseen key seen xs) \<inter> seen = {}"
  by (simp add: keys_unseen) blast

lemma distinct_unseen: "distinct (map key (unseen key seen xs))"
proof (induction xs arbitrary: seen)
  case Nil
  show ?case by simp
next
  case (Cons x xs)
  have "key x \<notin> key ` set (unseen key (insert (key x) seen) xs)"
    by (simp add: keys_unseen)
  with Cons show ?case by simp
qed

lemma unseen_unseen:
  "unseen key S (unseen key T xs) = unseen key (S \<union> T) xs"
proof (induction xs arbitrary: S T)
  case Nil
  show ?case by simp
next
  case (Cons x xs)
  show ?case
  proof (cases "key x \<in> T")
    case True
    with Cons show ?thesis by simp
  next
    case notT: False
    show ?thesis
    proof (cases "key x \<in> S")
      case True
      then have "S \<union> insert (key x) T = S \<union> T" by auto
      with True notT Cons [of S "insert (key x) T"] show ?thesis by simp
    next
      case False
      have "insert (key x) S \<union> insert (key x) T = insert (key x) (S \<union> T)" by auto
      with False notT Cons [of "insert (key x) S" "insert (key x) T"] show ?thesis by simp
    qed
  qed
qed

lemma bex_key_iff: "(\<exists>q\<in>set xs. f q = k) = (k \<in> f ` set xs)"
  by auto

lemma add_unique_unseen:
  "add_unique products ps = products @ unseen asin (asin ` set products) ps"
proof (induction ps arbitrary: products)
  case Nil
  show ?case by simp
next
  case (Cons p ps)
  show ?case
  proof (cases "asin p \<in> asin ` set products")
    case True
    then have "\<exists>q\<in>set products. asin q = asin p" by auto
    with True Cons show ?thesis by simp
  next
    case False
    then have "\<not> (\<exists>q\<in>set products. asin q = asin p)" by (simp add: bex_key_iff)
    moreover have "asin ` set (products @ [p]) = insert (asin p) (asin ` set products)" by auto
    ultimately show ?thesis using False Cons [of "products @ [p]"] by simp
  qed
qed

lemma process_elements_unseen:
  "process_elements mk sid sname es pp
     = pp @ unseen asin (asin ` set pp) (List.map_filter (element_product mk sid sname) es)"
proof (induction es arbitrary: pp)
  case Nil
  show ?case by (simp add: List.map_filter_simps)
next
  case (Cons e es)
  show ?case
  proof (cases "element_product mk sid sname e")
    case None
    then have "process_elements mk sid sname (e # es) pp = process_elements mk sid sname es pp"
      by (auto simp: element_product_def Let_def split: option.splits if_splits)
    with None Cons show ?thesis by (simp add: List.map_filter_simps)
  next
    case (Some p)
    then have a: "attrs e ''data-asin'' = Some (asin p)" "length (asin p) = 10"
      and t: "first_text (sub_text e) title_selectors = Some (title p)"
      and p: "p = \<lparr> asin = asin p, title = title p, link = base_url mk @ ''/dp/'' @ asin p,
                           marketplace = ''Amazon '' @ upper mk, seller_id = sid,
                           seller_name = sname,
                           price_text = first_text (sub_text e) price_selectors \<rparr>"
      by (auto simp: element_product_def split: option.splits if_splits)
    from a(2) have ne: "asin p \<noteq> []" by auto
    show ?thesis
    proof (cases "asin p \<in> asin ` set pp")
      case True
      then have "\<exists>q\<in>set pp. asin q = asin p" by auto
      then have "process_elements mk sid sname (e # es) pp = process_elements mk sid sname es pp"
        using a t ne by (simp add: Let_def)
      with True Some Cons show ?thesis by (simp add: List.map_filter_simps)
    next
      case False
      then have "\<not> (\<exists>q\<in>set pp. asin q = asin p)" by (simp add: bex_key_iff)
      then have "process_elements mk sid sname (e # es) pp
                 = process_elements mk sid sname es (pp @ [p])"
        using a t ne p by (simp add: Let_def)
      moreover have "asin ` set (pp @ [p]) = insert (asin p) (asin ` set pp)" by auto
      ultimately show ?thesis using False Some Cons [of "pp @ [p]"]
        by (simp add: List.map_filter_simps)
    qed
  qed
qed

subsection \<open>The walk of amazon\_scraper\<close>

lemma seen_log_Nil [simp]: "seen_log env recs n [] = []"
  by (simp add: seen_log_def)

lemma seen_log_Cons:
  "seen_log env recs n (url # urls) =
     (case net env n url of None \<Rightarrow> [] | Some body \<Rightarrow> recs body) @ seen_log env recs (Suc n) urls"
  by (simp add: seen_log_def)

lemma seen_log_append:
  "seen_log env recs n (us @ vs) = seen_log env recs n us @ seen_log env recs (n + length us) vs"
  by (simp add: seen_log_def enumerate_append_eq)

lemma unseen_extend:
  "unseen key S xs @ unseen key (S \<union> key ` set (unseen key S xs)) ys = unseen key S (xs @ ys)"
proof -
  have "S \<union> key ` set (unseen key S xs) = S \<union> key ` set xs"
    by (simp add: keys_unseen)
  then show ?thesis by (simp add: unseen_append)
qed

lemma page_loop_done: "\<not> page \<le> 100 \<Longrightarrow> page_loop env mk sid sname url0 page pp cr w = ((pp, cr), w)"
  by (simp add: page_loop.simps)

lemma page_loop_step:
  "page \<le> 100 \<Longrightarrow>
   page_loop env mk sid sname url0 page pp cr w =
     (case net env (length (fetched w)) (basic_page_url url0 page) of
        None \<Rightarrow> ((pp, cr), w\<lparr>fetched := fetched w @ [basic_page_url url0 page]\<rparr>)
      | Some body \<Rightarrow>
          if invalid_marker body \<or> first_selected (soup_of env body) product_selectors = []
          then ((pp, cr), w\<lparr>fetched := fetched w @ [basic_page_url url0 page]\<rparr>)
          else if last_page (soup_of env body)
          then ((process_elements mk sid sname
                   (first_selected (soup_of env body) product_selectors) pp, cr + 1),
                w\<lparr>fetched := fetched w @ [basic_page_url url0 page]\<rparr>)
          else page_loop env mk sid sname url0 (page + 1)
                 (process_elements mk sid sname
                    (first_selected (soup_of env body) product_selectors) pp)
                 (cr + 1) (w\<lparr>fetched := fetched w @ [basic_page_url url0 page]\<rparr>))"
  by (subst page_loop.simps)
     (simp add: make_request_def basic_page_url_def invalid_marker_def last_page_def Let_def
           split: option.splits)

lemma page_loop_seen_aux:
  "101 - page = k \<Longrightarrow> page_loop env mk sid sname url0 page pp cr w = ((pp', cr'), w') \<Longrightarrow>
     \<exists>us. w' = w\<lparr>fetched := fetched w @ us\<rparr>
        \<and> pp' = pp @ unseen asin (asin ` set pp)
                      (seen_log env (basic_page_records env mk sid sname) (length (fetched w)) us)"
proof (induction k arbitrary: page pp cr w)
  case 0
  then have "\<not> page \<le> 100" by simp
  with 0 have "w' = w\<lparr>fetched := fetched w @ []\<rparr> \<and>
     pp' = pp @ unseen asin (asin ` set pp)
             (seen_log env (basic_page_records env mk sid sname) (length (fetched w)) [])"
    by (simp add: page_loop_done)
  then show ?case by blast
next
  case (Suc k)
  let ?url = "basic_page_url url0 page"
  let ?n = "length (fetched w)"
  let ?w1 = "w\<lparr>fetched := fetched w @ [?url]\<rparr>"
  let ?recs = "basic_page_records env mk sid sname"
  from Suc.prems have le: "page \<le> 100" by simp
  note run = Suc.prems(2) [unfolded page_loop_step [OF le]]
  have one: "w' = ?w1 \<Longrightarrow> pp' = pp @ unseen asin (asin ` set pp) (seen_log env ?recs ?n [?url])
               \<Longrightarrow> ?case"
    by blast
  show ?case
  proof (cases "net env ?n ?url")
    case None
    with run have "w' = ?w1" "pp' = pp" by simp_all
    moreover have "seen_log env ?recs ?n [?url] = []" using None by (simp add: seen_log_Cons)
    ultimately show ?thesis by (intro one) simp_all
  next
    case (Some body)
    let ?els = "first_selected (soup_of env body) product_selectors"
    let ?pp1 = "process_elements mk sid sname ?els pp"
    have log1: "seen_log env ?recs ?n [?url] = ?recs body" using Some by (simp add: seen_log_Cons)
    show ?thesis
    proof (cases "invalid_marker body \<or> ?els = []")
      case True
      with run Some have "w' = ?w1" "pp' = pp" by auto
      moreover have "?recs body = []" using True
        by (auto simp: basic_page_records_def List.map_filter_simps)
      ultimately show ?thesis using log1 by (intro one) simp_all
    next
      case valid: False
      then have recs: "?recs body = List.map_filter (element_product mk sid sname) ?els"
        by (simp add: basic_page_records_def)
      have pp1: "?pp1 = pp @ unseen asin (asin ` set pp) (?recs body)"
        by (simp add: process_elements_unseen recs)
      show ?thesis
      proof (cases "last_page (soup_of env body)")
        case True
        with run Some valid have "w' = ?w1" "pp' = ?pp1" by auto
        then show ?thesis using log1 pp1 by (intro one) simp_all
      next
        case False
        with run Some valid
        have rec: "page_loop env mk sid sname url0 (page + 1) ?pp1 (cr + 1) ?w1 = ((pp', cr'), w')"
          by auto
        from Suc.prems(1) have "101 - (page + 1) = k" by simp
        from Suc.IH [OF this rec]
        obtain us where us: "w' = ?w1\<lparr>fetched := fetched ?w1 @ us\<rparr>"
            "pp' = ?pp1 @ unseen asin (asin ` set ?pp1) (seen_log env ?recs (length (fetched ?w1)) us)"
          by blast
        have "asin ` set ?pp1 = asin ` set pp \<union> asin ` set (unseen asin (asin ` set pp) (?recs body))"
          by (simp add: pp1 image_Un)
        then have "pp' = pp @ unseen asin (asin ` set pp) (?recs body @ seen_log env ?recs (Suc ?n) us)"
          using us(2) pp1 by (simp add: unseen_extend)
        moreover have "seen_log env ?recs ?n (?url # us) = ?recs body @ seen_log env ?recs (Suc ?n) us"
          using Some by (simp add: seen_log_Cons)
        ultimately have "w' = w\<lparr>fetched := fetched w @ (?url # us)\<rparr> \<and>
           pp' = pp @ unseen asin (asin ` set pp) (seen_log env ?recs ?n (?url # us))"
          using us(1) by simp
        then show ?thesis by blast
      qed
    qed
  qed
qed

lemmas page_loop_seen = page_loop_seen_aux [OF refl]

lemma url_loop_seen:
  "url_loop env mk sid sname urls products cr w = ((products', cr'), w') \<Longrightarrow>
     \<exists>us. w' = w\<lparr>fetched := fetched w @ us\<rparr>
        \<and> products' = products @ unseen asin (asin ` set products)
                      (seen_log env (basic_page_records env mk sid sname) (length (fetched w)) us)"
proof (induction urls arbitrary: products cr w)
  case Nil
  then have "w' = w\<lparr>fetched := fetched w @ []\<rparr> \<and>
     products' = products @ unseen asin (asin ` set products)
             (seen_log env (basic_page_records env mk sid sname) (length (fetched w)) [])"
    by simp
  then show ?case by blast
next
  case (Cons url0 urls)
  let ?recs = "basic_page_records env mk sid sname"
  let ?S = "asin ` set products"
  obtain pp cr1 w1 where pl: "page_loop env mk sid sname url0 1 [] cr w = ((pp, cr1), w1)"
    by (metis surj_pair)
  from page_loop_seen [OF pl]
  obtain us where us: "w1 = w\<lparr>fetched := fetched w @ us\<rparr>"
      "pp = unseen asin {} (seen_log env ?recs (length (fetched w)) us)"
    by auto
  let ?R1 = "seen_log env ?recs (length (fetched w)) us"
  let ?p1 = "add_unique products pp"
  have p1: "?p1 = products @ unseen asin ?S ?R1"
    by (simp add: add_unique_unseen us(2) unseen_unseen)
  from Cons.prems pl have "url_loop env mk sid sname urls ?p1 cr1 w1 = ((products', cr'), w')"
    by simp
  from Cons.IH [OF this]
  obtain vs where vs: "w' = w1\<lparr>fetched := fetched w1 @ vs\<rparr>"
      "products' = ?p1 @ unseen asin (asin ` set ?p1) (seen_log env ?recs (length (fetched w1)) vs)"
    by blast
  have "asin ` set ?p1 = ?S \<union> asin ` set (unseen asin ?S ?R1)"
    by (simp add: p1 image_Un)
  then have "products' = products @ unseen asin ?S (?R1 @ seen_log env ?recs (length (fetched w1)) vs)"
    using vs(2) p1 by (simp add: unseen_extend)
  moreover have "length (fetched w1) = length (fetched w) + length us" using us(1) by simp
  ultimately have "w' = w\<lparr>fetched := fetched w @ (us @ vs)\<rparr> \<and>
     products' = products @ unseen asin ?S (seen_log env ?recs (length (fetched w)) (us @ vs))"
    using vs(1) us(1) by (simp add: seen_log_append)
  then show ?case by blast
qed

subsection \<open>The walk of enhanced\_amazon\_scraper\<close>

lemma add_new_unseen:
  "map fst d = map (asin_key \<circ> snd) d \<Longrightarrow> add_new d ps = Inr d' \<Longrightarrow>
     map fst d' = map (asin_key \<circ> snd) d'
     \<and> map snd d' = map snd d @ unseen asin_key (asin_key ` set (map snd d)) ps"
proof (induction ps arbitrary: d)
  case Nil
  then show ?case by simp
next
  case (Cons p ps)
  from Cons.prems(2) have h: "hashable (e_asin p)" by (auto split: if_splits)
  have keys: "set (map fst d) = asin_key ` set (map snd d)"
    using Cons.prems(1) by (metis list.set_map list.map_comp)
  show ?case
  proof (cases "asin_key p \<in> asin_key ` set (map snd d)")
    case True
    with Cons.prems h keys have "add_new d ps = Inr d'" by (simp add: asin_key_def)
    from Cons.IH [OF Cons.prems(1) this] True show ?thesis by simp
  next
    case False
    let ?d1 = "d @ [(asin_key p, p)]"
    from False Cons.prems h keys have "add_new ?d1 ps = Inr d'" by (simp add: asin_key_def)
    moreover have "map fst ?d1 = map (asin_key \<circ> snd) ?d1" using Cons.prems(1) by simp
    ultimately have "map fst d' = map (asin_key \<circ> snd) d'
        \<and> map snd d' = map snd ?d1 @ unseen asin_key (asin_key ` set (map snd ?d1)) ps"
      by (rule Cons.IH [rotated])
    moreover have "asin_key ` set (map snd ?d1) = insert (asin_key p) (asin_key ` set (map snd d))"
      by auto
    ultimately show ?thesis using False by simp
  qed
qed

lemma walk_pages_step:
  "walk_pages env pat mk sid (page # pages) d c w =
     (case net env (length (fetched w)) (format_url pat mk sid page) of
        None \<Rightarrow> (Inr (d, c), w\<lparr>fetched := fetched w @ [format_url pat mk sid page]\<rparr>)
      | Some body \<Rightarrow>
          if enh_page_records env sid body = []
          then (Inr (d, c), w\<lparr>fetched := fetched w @ [format_url pat mk sid page]\<rparr>)
          else (case add_new d (enh_page_records env sid body) of
                  Inl err \<Rightarrow> (Inl err, w\<lparr>fetched := fetched w @ [format_url pat mk sid page]\<rparr>)
                | Inr d1 \<Rightarrow>
                    walk_pages env pat mk sid pages d1 (c + length (enh_page_records env sid body))
                      (w\<lparr>fetched := fetched w @ [format_url pat mk sid page]\<rparr>)))"
  by (simp add: make_request_def enh_page_records_def Let_def split: option.splits sum.splits)

lemma walk_extra_step:
  "walk_extra env pat mk sid (page # pages) d w =
     (case net env (length (fetched w)) (format_url pat mk sid page) of
        None \<Rightarrow> (Inr d, w\<lparr>fetched := fetched w @ [format_url pat mk sid page]\<rparr>)
      | Some body \<Rightarrow>
          if enh_page_records env sid body = []
          then (Inr d, w\<lparr>fetched := fetched w @ [format_url pat mk sid page]\<rparr>)
          else (case add_new d (enh_page_records env sid body) of
                  Inl err \<Rightarrow> (Inl err, w\<lparr>fetched := fetched w @ [format_url pat mk sid page]\<rparr>)
                | Inr d1 \<Rightarrow>
                    walk_extra env pat mk sid pages d1
                      (w\<lparr>fetched := fetched w @ [format_url pat mk sid page]\<rparr>)))"
  by (simp add: make_request_def enh_page_records_def Let_def split: option.splits sum.splits)

declare walk_pages.simps(2) [simp del] walk_extra.simps(2) [simp del]

text \<open>The requests of a walk: the URLs of an initial segment of the pages, in order.\<close>

lemma walk_pages_log:
  "\<exists>k\<le>length pages. snd (walk_pages env pat mk sid pages d c w)
        = w\<lparr>fetched := fetched w @ map (format_url pat mk sid) (take k pages)\<rparr>"
proof (induction pages arbitrary: d c w)
  case Nil
  show ?case by simp
next
  case (Cons page pages)
  let ?url = "format_url pat mk sid page"
  let ?w1 = "w\<lparr>fetched := fetched w @ [?url]\<rparr>"
  have stop: "snd (walk_pages env pat mk sid (page # pages) d c w) = ?w1 \<Longrightarrow> ?case"
  proof -
    assume "snd (walk_pages env pat mk sid (page # pages) d c w) = ?w1"
    then have "Suc 0 \<le> length (page # pages) \<and> snd (walk_pages env pat mk sid (page # pages) d c w)
        = w\<lparr>fetched := fetched w @ map (format_url pat mk sid) (take (Suc 0) (page # pages))\<rparr>"
      by simp
    then show ?case by blast
  qed
  show ?case
  proof (cases "net env (length (fetched w)) ?url")
    case None
    then show ?thesis by (intro stop) (simp add: walk_pages_step)
  next
    case (Some body)
    show ?thesis
    proof (cases "enh_page_records env sid body = []")
      case True
      with Some show ?thesis by (intro stop) (simp add: walk_pages_step)
    next
      case False
      show ?thesis
      proof (cases "add_new d (enh_page_records env sid body)")
        case (Inl err)
        with Some False show ?thesis by (intro stop) (simp add: walk_pages_step)
      next
        case (Inr d1)
        let ?c1 = "c + length (enh_page_records env sid body)"
        from Cons.IH [of d1 ?c1 ?w1]
        obtain k where k: "k \<le> length pages" "snd (walk_pages env pat mk sid pages d1 ?c1 ?w1)
          = ?w1\<lparr>fetched := fetched ?w1 @ map (format_url pat mk sid) (take k pages)\<rparr>"
          by blast
        have "Suc k \<le> length (page # pages) \<and> snd (walk_pages env pat mk sid (page # pages) d c w)
          = w\<lparr>fetched := fetched w @ map (format_url pat mk sid) (take (Suc k) (page # pages))\<rparr>"
          using k Some False Inr by (simp add: walk_pages_step)
        then show ?thesis by blast
      qed
    qed
  qed
qed

lemma walk_pages_seen:
  "map fst d = map (asin_key \<circ> snd) d \<Longrightarrow>
   walk_pages env pat mk sid pages d c w = (Inr (d', c'), w') \<Longrightarrow>
     \<exists>us. w' = w\<lparr>fetched := fetched w @ us\<rparr>
        \<and> map fst d' = map (asin_key \<circ> snd) d'
        \<and> map snd d' = map snd d @ unseen asin_key (asin_key ` set (map snd d))
                          (seen_log env (enh_page_records env sid) (length (fetched w)) us)
        \<and> c' = c + length (seen_log env (enh_page_records env sid) (length (fetched w)) us)"
proof (induction pages arbitrary: d c w)
  case Nil
  then have "w' = w\<lparr>fetched := fetched w @ []\<rparr>
        \<and> map fst d' = map (asin_key \<circ> snd) d'
        \<and> map snd d' = map snd d @ unseen asin_key (asin_key ` set (map snd d))
                          (seen_log env (enh_page_records env sid) (length (fetched w)) [])
        \<and> c' = c + length (seen_log env (enh_page_records env sid) (length (fetched w)) [])"
    by auto
  then show ?case by blast
next
  case (Cons page pages)
  let ?url = "format_url pat mk sid page"
  let ?n = "length (fetched w)"
  let ?w1 = "w\<lparr>fetched := fetched w @ [?url]\<rparr>"
  let ?recs = "enh_page_records env sid"
  let ?S = "asin_key ` set (map snd d)"
  note run = Cons.prems(2) [unfolded walk_pages_step]
  have one: "w' = ?w1 \<Longrightarrow> d' = d \<Longrightarrow> c' = c \<Longrightarrow> seen_log env ?recs ?n [?url] = [] \<Longrightarrow> ?case"
  proof -
    assume "w' = ?w1" "d' = d" "c' = c" "seen_log env ?recs ?n [?url] = []"
    then have "w' = w\<lparr>fetched := fetched w @ [?url]\<rparr>
        \<and> map fst d' = map (asin_key \<circ> snd) d'
        \<and> map snd d' = map snd d @ unseen asin_key ?S (seen_log env ?recs ?n [?url])
        \<and> c' = c + length (seen_log env ?recs ?n [?url])"
      using Cons.prems(1) by simp
    then show ?case by blast
  qed
  show ?case
  proof (cases "net env ?n ?url")
    case None
    with run show ?thesis by (intro one) (simp_all add: seen_log_Cons)
  next
    case (Some body)
    show ?thesis
    proof (cases "?recs body = []")
      case True
      with run Some show ?thesis by (intro one) (simp_all add: seen_log_Cons)
    next
      case False
      from run Some False obtain d1 where d1: "add_new d (?recs body) = Inr d1"
        and rec: "walk_pages env pat mk sid pages d1 (c + length (?recs body)) ?w1 = (Inr (d', c'), w')"
        by (auto split: sum.splits)
      from add_new_unseen [OF Cons.prems(1) d1]
      have k1: "map fst d1 = map (asin_key \<circ> snd) d1"
        and v1: "map snd d1 = map snd d @ unseen asin_key ?S (?recs body)" by simp_all
      from Cons.IH [OF k1 rec]
      obtain us where us: "w' = ?w1\<lparr>fetched := fetched ?w1 @ us\<rparr>"
        "map fst d' = map (asin_key \<circ> snd) d'"
        "map snd d' = map snd d1 @ unseen asin_key (asin_key ` set (map snd d1))
                          (seen_log env ?recs (length (fetched ?w1)) us)"
        "c' = c + length (?recs body) + length (seen_log env ?recs (length (fetched ?w1)) us)"
        by blast
      have "asin_key ` set (map snd d1) = ?S \<union> asin_key ` set (unseen asin_key ?S (?recs body))"
        by (simp add: v1 image_Un)
      then have "map snd d' = map snd d @ unseen asin_key ?S (?recs body @ seen_log env ?recs (Suc ?n) us)"
        using us(3) v1 by (simp add: unseen_extend)
      moreover have "seen_log env ?recs ?n (?url # us) = ?recs body @ seen_log env ?recs (Suc ?n) us"
        using Some by (simp add: seen_log_Cons)
      ultimately have "w' = w\<lparr>fetched := fetched w @ (?url # us)\<rparr>
        \<and> map fst d' = map (asin_key \<circ> snd) d'
        \<and> map snd d' = map snd d @ unseen asin_key ?S (seen_log env ?recs ?n (?url # us))
        \<and> c' = c + length (seen_log env ?recs ?n (?url # us))"
        using us by simp
      then show ?thesis by blast
    qed
  qed
qed

lemma walk_extra_as_walk_pages:
  "walk_extra env pat mk sid pages d w =
     (case walk_pages env pat mk sid pages d c w of
        (Inl err, w') \<Rightarrow> (Inl err, w')
      | (Inr (d', c'), w') \<Rightarrow> (Inr d', w'))"
proof (induction pages arbitrary: d c w)
  case Nil
  show ?case by simp
next
  case (Cons page pages)
  show ?case
    by (simp add: walk_pages_step walk_extra_step Cons.IH split: option.splits sum.splits)
qed

lemma walk_extra_log:
  "\<exists>k\<le>length pages. snd (walk_extra env pat mk sid pages d w)
        = w\<lparr>fetched := fetched w @ map (format_url pat mk sid) (take k pages)\<rparr>"
proof -
  have "snd (walk_extra env pat mk sid pages d w) = snd (walk_pages env pat mk sid pages d 0 w)"
    by (simp add: walk_extra_as_walk_pages [where c = 0] split: prod.splits sum.splits)
  then show ?thesis using walk_pages_log [of pages env pat mk sid d 0 w] by simp
qed

lemma walk_extra_seen:
  assumes "map fst d = map (asin_key \<circ> snd) d"
      and "walk_extra env pat mk sid pages d w = (Inr d', w')"
  shows "\<exists>us. w' = w\<lparr>fetched := fetched w @ us\<rparr>
        \<and> map fst d' = map (asin_key \<circ> snd) d'
        \<and> map snd d' = map snd d @ unseen asin_key (asin_key ` set (map snd d))
                          (seen_log env (enh_page_records env sid) (length (fetched w)) us)"
proof -
  from assms(2) obtain c' where "walk_pages env pat mk sid pages d 0 w = (Inr (d', c'), w')"
    by (auto simp: walk_extra_as_walk_pages [where c = 0] split: prod.splits sum.splits)
  from walk_pages_seen [OF assms(1) this] show ?thesis by blast
qed

lemma scan_pattern_seen:
  assumes keyed: "map fst d = map (asin_key \<circ> snd) d"
      and run: "scan_pattern env pat mk sid d w = (Inr d', w')"
  shows "\<exists>us. w' = w\<lparr>fetched := fetched w @ us\<rparr>
        \<and> map fst d' = map (asin_key \<circ> snd) d'
        \<and> map snd d' = map snd d @ unseen asin_key (asin_key ` set (map snd d))
                          (seen_log env (enh_page_records env sid) (length (fetched w)) us)"
proof -
  let ?recs = "enh_page_records env sid"
  let ?S = "asin_key ` set (map snd d)"
  from run obtain d1 c1 w1 where
    wp: "walk_pages env pat mk sid [1..<8] d 0 w = (Inr (d1, c1), w1)"
    and rest: "(if c1 \<ge> 100 then walk_extra env pat mk sid [8..<16] d1 w1 else (Inr d1, w1))
               = (Inr d', w')"
    by (auto simp: scan_pattern_def split: prod.splits sum.splits)
  from walk_pages_seen [OF keyed wp]
  obtain us where us: "w1 = w\<lparr>fetched := fetched w @ us\<rparr>"
    "map fst d1 = map (asin_key \<circ> snd) d1"
    "map snd d1 = map snd d @ unseen asin_key ?S (seen_log env ?recs (length (fetched w)) us)"
    by blast
  show ?thesis
  proof (cases "c1 \<ge> 100")
    case False
    with rest us show ?thesis by auto
  next
    case True
    with rest have "walk_extra env pat mk sid [8..<16] d1 w1 = (Inr d', w')" by simp
    from walk_extra_seen [OF us(2) this]
    obtain vs where vs: "w' = w1\<lparr>fetched := fetched w1 @ vs\<rparr>"
      "map fst d' = map (asin_key \<circ> snd) d'"
      "map snd d' = map snd d1 @ unseen asin_key (asin_key ` set (map snd d1))
                          (seen_log env ?recs (length (fetched w1)) vs)"
      by blast
    let ?R1 = "seen_log env ?recs (length (fetched w)) us"
    have "asin_key ` set (map snd d1) = ?S \<union> asin_key ` set (unseen asin_key ?S ?R1)"
      by (simp add: us(3) image_Un)
    then have "map snd d' = map snd d @ unseen asin_key ?S
                 (?R1 @ seen_log env ?recs (length (fetched w1)) vs)"
      using vs(3) us(3) by (simp add: unseen_extend)
    moreover have "length (fetched w1) = length (fetched w) + length us" using us(1) by simp
    ultimately have "w' = w\<lparr>fetched := fetched w @ (us @ vs)\<rparr>
        \<and> map fst d' = map (asin_key \<circ> snd) d'
        \<and> map snd d' = map snd d @ unseen asin_key ?S
                          (seen_log env ?recs (length (fetched w)) (us @ vs))"
      using vs(1,2) us(1) by (simp add: seen_log_append)
    then show ?thesis by blast
  qed
qed

lemma walk_patterns_seen:
  "map fst d = map (asin_key \<circ> snd) d \<Longrightarrow>
   walk_patterns env pats mk sid d w = (Inr d', w') \<Longrightarrow>
     \<exists>us. w' = w\<lparr>fetched := fetched w @ us\<rparr>
        \<and> map fst d' = map (asin_key \<circ> snd) d'
        \<and> map snd d' = map snd d @ unseen asin_key (asin_key ` set (map snd d))
                          (seen_log env (enh_page_records env sid) (length (fetched w)) us)"
proof (induction pats arbitrary: d w)
  case Nil
  then have "w' = w\<lparr>fetched := fetched w @ []\<rparr>
        \<and> map fst d' = map (asin_key \<circ> snd) d'
        \<and> map snd d' = map snd d @ unseen asin_key (asin_key ` set (map snd d))
                          (seen_log env (enh_page_records env sid) (length (fetched w)) [])"
    by auto
  then show ?case by blast
next
  case (Cons pat pats)
  let ?recs = "enh_page_records env sid"
  let ?S = "asin_key ` set (map snd d)"
  from Cons.prems(2) obtain d1 w1 where
    sp: "scan_pattern env pat mk sid d w = (Inr d1, w1)"
    and rest: "walk_patterns env pats mk sid d1 w1 = (Inr d', w')"
    by (auto split: prod.splits sum.splits)
  from scan_pattern_seen [OF Cons.prems(1) sp]
  obtain us where us: "w1 = w\<lparr>fetched := fetched w @ us\<rparr>"
    "map fst d1 = map (asin_key \<circ> snd) d1"
    "map snd d1 = map snd d @ unseen asin_key ?S (seen_log env ?recs (length (fetched w)) us)"
    by blast
  from Cons.IH [OF us(2) rest]
  obtain vs where vs: "w' = w1\<lparr>fetched := fetched w1 @ vs\<rparr>"
    "map fst d' = map (asin_key \<circ> snd) d'"
    "map snd d' = map snd d1 @ unseen asin_key (asin_key ` set (map snd d1))
                        (seen_log env ?recs (length (fetched w1)) vs)"
    by blast
  let ?R1 = "seen_log env ?recs (length (fetched w)) us"
  have "asin_key ` set (map snd d1) = ?S \<union> asin_key ` set (unseen asin_key ?S ?R1)"
    by (simp add: us(3) image_Un)
  then have "map snd d' = map snd d @ unseen asin_key ?S
               (?R1 @ seen_log env ?recs (length (fetched w1)) vs)"
    using vs(3) us(3) by (simp add: unseen_extend)
  moreover have "length (fetched w1) = length (fetched w) + length us" using us(1) by simp
  ultimately have "w' = w\<lparr>fetched := fetched w @ (us @ vs)\<rparr>
      \<and> map fst d' = map (asin_key \<circ> snd) d'
      \<and> map snd d' = map snd d @ unseen asin_key ?S
                        (seen_log env ?recs (length (fetched w)) (us @ vs))"
    using vs(1,2) us(1) by (simp add: seen_log_append)
  then show ?case by blast
qed

subsection \<open>Whole scans\<close>

lemma enh_get_seller_name_world:
  "snd (enh_get_seller_name env sid mk w)
     = w\<lparr>fetched := fetched w @ [enh_name_url mk sid]\<rparr>"
  by (simp add: enh_get_seller_name_def enh_name_url_def make_request_def Let_def split: option.splits)

lemma read_clock_fetched [simp]: "fetched (snd (read_clock env w)) = fetched w"
  by (simp add: read_clock_def)

lemma enh_save_to_cache_fetched [simp]:
  "fetched (enh_save_to_cache env sid mk data w) = fetched w"
  by (simp add: enh_save_to_cache_def read_clock_def)

lemma basic_save_to_cache_fetched [simp]:
  "fetched (basic_save_to_cache env sid mk data w) = fetched w"
  by (simp add: basic_save_to_cache_def read_clock_def)

lemma enh_save_to_cache_file:
  "files (enh_save_to_cache env sid mk data w) (get_cache_path env sid mk)
     = Some (json_dumps env (JObj (data @ [(''timestamp'', JStr (isoformat env (clock env (ticks w))))])))"
  by (simp add: enh_save_to_cache_def read_clock_def)

lemma basic_save_to_cache_file:
  "files (basic_save_to_cache env sid mk data w) (get_cache_path env sid mk)
     = Some (json_dumps env (JObj (data @ [(''timestamp'', JNum (clock env (ticks w)))])))"
  by (simp add: basic_save_to_cache_def read_clock_def)

lemma distinct_first_seen: "distinct (map key (first_seen key xs))"
  by (simp add: first_seen_def distinct_unseen)

lemma enh_fresh_scan_first_seen:
  assumes "fst (enh_fresh_scan env sid mk w) = Inr (ps, name)"
  shows "ps = first_seen asin_key (enh_scan_records env sid mk w)"
proof -
  obtain nm w1 where gn: "enh_get_seller_name env sid mk w = (nm, w1)" by (metis surj_pair)
  then have w1: "w1 = w\<lparr>fetched := fetched w @ [enh_name_url mk sid]\<rparr>"
    using enh_get_seller_name_world [of env sid mk w] by simp
  obtain r w2 where wp: "walk_patterns env SELLER_URL_PATTERNS mk sid [] w1 = (r, w2)"
    by (metis surj_pair)
  with assms gn obtain d where r: "r = Inr d" and ps: "ps = map snd d"
    by (auto simp: enh_fresh_scan_def Let_def split: sum.splits)
  have w': "fetched (snd (enh_fresh_scan env sid mk w)) = fetched w2"
    using gn wp r by (simp add: enh_fresh_scan_def Let_def)
  from walk_patterns_seen [of "[]" env SELLER_URL_PATTERNS mk sid w1 d w2] wp r
  obtain us where us: "w2 = w1\<lparr>fetched := fetched w1 @ us\<rparr>"
    "map snd d = unseen asin_key {} (seen_log env (enh_page_records env sid) (length (fetched w1)) us)"
    by auto
  have "drop (Suc (length (fetched w))) (fetched w2) = us" using us(1) w1 by simp
  moreover have "length (fetched w1) = Suc (length (fetched w))" using w1 by simp
  ultimately show ?thesis
    using us(2) ps w' by (simp add: enh_scan_records_def first_seen_def)
qed

lemma basic_fresh_scan_first_seen:
  "fst (basic_fresh_scan env mk sid w) = first_seen asin (basic_scan_records env mk sid w)"
proof -
  let ?w1 = "snd (read_clock env w)"
  let ?now = "fst (read_clock env w)"
  obtain nm w2 where gn: "basic_get_seller_name env mk sid ?w1 = (nm, w2)" by (metis surj_pair)
  let ?sn = "or_unknown_seller nm"
  obtain products cr w3 where
    ul: "url_loop env mk sid ?sn (urls_to_try mk sid ?now) [] 0 w2 = ((products, cr), w3)"
    by (metis surj_pair)
  have res: "fst (basic_fresh_scan env mk sid w) = products"
    and w': "fetched (snd (basic_fresh_scan env mk sid w)) = fetched w3"
    using gn ul by (simp_all add: basic_fresh_scan_def Let_def split_beta)
  from url_loop_seen [OF ul]
  obtain us where us: "w3 = w2\<lparr>fetched := fetched w2 @ us\<rparr>"
    "products = unseen asin {} (seen_log env (basic_page_records env mk sid ?sn) (length (fetched w2)) us)"
    by auto
  have "drop (length (fetched w2)) (fetched w3) = us" using us(1) by simp
  then show ?thesis
    using us(2) res w' gn by (simp add: basic_scan_records_def first_seen_def Let_def split_beta)
qed

lemma distinct_map_comp: "distinct (map (f \<circ> g) xs) \<Longrightarrow> distinct (map g xs)"
  by (metis distinct_map inj_on_imageI2)

subsection \<open>A Fetcher that always fails\<close>

lemma upt_1_8: "[1..<8] = [1, 2, 3, 4, 5, 6, 7::nat]"
  by (simp add: upt_rec)

lemma upt_8_16: "[8..<16] = [8, 9, 10, 11, 12, 13, 14, 15::nat]"
  by (simp add: upt_rec)

lemma scan_pattern_dead:
  "net env (length (fetched w)) (format_url pat mk sid 1) = None \<Longrightarrow>
   scan_pattern env pat mk sid d w = (Inr d, w\<lparr>fetched := fetched w @ [format_url pat mk sid 1]\<rparr>)"
  unfolding scan_pattern_def upt_1_8 by (simp add: walk_pages_step)

lemma walk_patterns_dead:
  "(\<And>i u. length (fetched w) \<le> i \<Longrightarrow> net env i u = None) \<Longrightarrow>
   walk_patterns env pats mk sid d w
     = (Inr d, w\<lparr>fetched := fetched w @ map (\<lambda>pat. format_url pat mk sid 1) pats\<rparr>)"
proof (induction pats arbitrary: w)
  case Nil
  show ?case by simp
next
  case (Cons pat pats)
  let ?w1 = "w\<lparr>fetched := fetched w @ [format_url pat mk sid 1]\<rparr>"
  have "scan_pattern env pat mk sid d w = (Inr d, ?w1)"
    by (rule scan_pattern_dead) (simp add: Cons.prems)
  moreover have "walk_patterns env pats mk sid d ?w1
     = (Inr d, ?w1\<lparr>fetched := fetched ?w1 @ map (\<lambda>pat. format_url pat mk sid 1) pats\<rparr>)"
    by (rule Cons.IH) (simp add: Cons.prems)
  ultimately show ?case by simp
qed

lemma basic_page_url_1 [simp]: "basic_page_url url0 (Suc 0) = url0"
  by (simp add: basic_page_url_def)

lemma page_loop_dead:
  "page \<le> 100 \<Longrightarrow> net env (length (fetched w)) (basic_page_url url0 page) = None \<Longrightarrow>
   page_loop env mk sid sname url0 page pp cr w
     = ((pp, cr), w\<lparr>fetched := fetched w @ [basic_page_url url0 page]\<rparr>)"
  by (simp add: page_loop_step)

lemma url_loop_dead:
  "(\<And>i u. length (fetched w) \<le> i \<Longrightarrow> net env i u = None) \<Longrightarrow>
   url_loop env mk sid sname urls products cr w
     = ((products, cr), w\<lparr>fetched := fetched w @ urls\<rparr>)"
proof (induction urls arbitrary: w)
  case Nil
  show ?case by simp
next
  case (Cons url0 urls)
  let ?w1 = "w\<lparr>fetched := fetched w @ [url0]\<rparr>"
  have "page_loop env mk sid sname url0 1 [] cr w = (([], cr), ?w1)"
    using page_loop_dead [of 1 env w url0 mk sid sname "[]" cr] by (simp add: Cons.prems)
  moreover have "url_loop env mk sid sname urls products cr ?w1
     = ((products, cr), ?w1\<lparr>fetched := fetched ?w1 @ urls\<rparr>)"
    by (rule Cons.IH) (simp add: Cons.prems)
  ultimately show ?case by simp
qed

lemma basic_get_seller_name_dead:
  "net env (length (fetched w)) (base_url mk @ ''/sp?seller='' @ sid) = None \<Longrightarrow>
   (\<exists>name. basic_get_seller_name env mk sid w
       = (Some name, w\<lparr>downloads := downloads w @ [base_url mk @ ''/sp?seller='' @ sid]\<rparr>))
   \<or> basic_get_seller_name env mk sid w
       = (None, w\<lparr>downloads := downloads w @ [base_url mk @ ''/sp?seller='' @ sid],
                   fetched := fetched w @ [base_url mk @ ''/sp?seller='' @ sid]\<rparr>)"
  by (auto simp: basic_get_seller_name_def make_request_def Let_def split: option.splits)

lemma enh_get_seller_name_dead:
  "net env (length (fetched w)) (enh_name_url mk sid) = None \<Longrightarrow>
   enh_get_seller_name env sid mk w = (None, w\<lparr>fetched := fetched w @ [enh_name_url mk sid]\<rparr>)"
  by (simp add: enh_get_seller_name_def enh_name_url_def make_request_def Let_def)

lemma length_SELLER_URL_PATTERNS: "length SELLER_URL_PATTERNS = 15"
  by (simp add: SELLER_URL_PATTERNS_def)

lemma length_urls_to_try: "length (urls_to_try mk sid now) = 14"
  by (simp add: urls_to_try_def)

lemma enh_fresh_scan_dead:
  assumes dead: "\<And>i u. net env i u = None"
  shows "\<exists>w'. enh_fresh_scan env sid mk w = (Inr ([], ''Unknown Seller''), w')
           \<and> fetched w' = fetched w @ enh_name_url mk sid
                              # map (\<lambda>pat. format_url pat mk sid 1) SELLER_URL_PATTERNS"
proof -
  let ?w1 = "w\<lparr>fetched := fetched w @ [enh_name_url mk sid]\<rparr>"
  have gn: "enh_get_seller_name env sid mk w = (None, ?w1)"
    by (rule enh_get_seller_name_dead) (rule dead)
  have wp: "walk_patterns env SELLER_URL_PATTERNS mk sid [] ?w1
     = (Inr [], ?w1\<lparr>fetched := fetched ?w1 @ map (\<lambda>pat. format_url pat mk sid 1) SELLER_URL_PATTERNS\<rparr>)"
    by (rule walk_patterns_dead) (rule dead)
  show ?thesis
    by (simp add: enh_fresh_scan_def gn wp or_unknown_seller_def Let_def)
qed

lemma basic_fresh_scan_dead:
  assumes dead: "\<And>i u. net env i u = None"
  shows "\<exists>w' us. basic_fresh_scan env mk sid w = ([], w')
           \<and> fetched w' = fetched w @ us @ urls_to_try mk sid (clock env (ticks w))
           \<and> length us \<le> 1 \<and> files w' = files w"
proof -
  let ?w1 = "w\<lparr>ticks := Suc (ticks w)\<rparr>"
  let ?u = "base_url mk @ ''/sp?seller='' @ sid"
  have rc: "read_clock env w = (clock env (ticks w), ?w1)" by (simp add: read_clock_def)
  obtain nm w2 where gn: "basic_get_seller_name env mk sid ?w1 = (nm, w2)" by (metis surj_pair)
  from basic_get_seller_name_dead [of env ?w1 mk sid, OF dead] gn
  have "\<exists>us. fetched w2 = fetched w @ us \<and> length us \<le> 1 \<and> files w2 = files w"
  proof (elim disjE exE)
    fix name
    assume "basic_get_seller_name env mk sid ?w1 = (Some name, ?w1\<lparr>downloads := downloads ?w1 @ [?u]\<rparr>)"
    with gn have "fetched w2 = fetched w @ [] \<and> length ([]::string list) \<le> 1 \<and> files w2 = files w"
      by auto
    then show ?thesis by blast
  next
    assume "basic_get_seller_name env mk sid ?w1
       = (None, ?w1\<lparr>downloads := downloads ?w1 @ [?u], fetched := fetched ?w1 @ [?u]\<rparr>)"
    with gn have "fetched w2 = fetched w @ [?u] \<and> length [?u] \<le> 1 \<and> files w2 = files w"
      by auto
    then show ?thesis by blast
  qed
  then obtain us where us: "fetched w2 = fetched w @ us" "length us \<le> 1" "files w2 = files w"
    by blast
  let ?urls = "urls_to_try mk sid (clock env (ticks w))"
  have ul: "url_loop env mk sid (or_unknown_seller nm) ?urls [] 0 w2
     = (([], 0), w2\<lparr>fetched := fetched w2 @ ?urls\<rparr>)"
    by (rule url_loop_dead) (rule dead)
  have "basic_fresh_scan env mk sid w = ([], w2\<lparr>fetched := fetched w2 @ ?urls\<rparr>)"
    by (simp add: basic_fresh_scan_def rc gn ul Let_def)
  with us show ?thesis by simp
qed

lemma dead_env_net [simp]: "net dead_env i u = None"
  by (simp add: dead_env_def)

lemma empty_world_sel [simp]:
  "files empty_world = Map.empty" "fetched empty_world = []"
  "downloads empty_world = []" "ticks empty_world = 0"
  by (simp_all add: empty_world_def)

lemma enh_top_dead:
  assumes dead: "\<And>i u. net env i u = None"
  shows "fst (enh_get_seller_products env sid mk True w) = Inr (JArr [])"
proof -
  from enh_fresh_scan_dead [of env sid mk w, OF dead]
  obtain w' where "enh_fresh_scan env sid mk w = (Inr ([], ''Unknown Seller''), w')" by blast
  then show ?thesis by (simp add: enh_get_seller_products_def scan_seller_inventory_def)
qed

lemma basic_top_dead:
  assumes dead: "\<And>i u. net env i u = None"
  shows "fst (scraper_get_seller_products env mk sid True w) = Inr (JArr [])"
    and "fst (basic_get_seller_products env sid mk True w) = Inr (JArr [])"
proof -
  from basic_fresh_scan_dead [of env mk sid w, OF dead]
  obtain w' where "basic_fresh_scan env mk sid w = ([], w')" by blast
  then show "fst (scraper_get_seller_products env mk sid True w) = Inr (JArr [])"
    by (simp add: scraper_get_seller_products_def)
  then show "fst (basic_get_seller_products env sid mk True w) = Inr (JArr [])"
    by (auto simp: basic_get_seller_products_def split: prod.splits sum.splits)
qed

subsection \<open>What a scan returns and caches\<close>

lemma keys_first_seen: "key ` set (first_seen key xs) = key ` set xs"
  by (simp add: first_seen_def keys_unseen)

lemma basic_fresh_scan_cached:
  assumes "fst (basic_fresh_scan env mk sid w) \<noteq> []"
  shows "\<exists>d. files (snd (basic_fresh_scan env mk sid w)) (get_cache_path env sid mk)
                = Some (json_dumps env (JObj d))
            \<and> map_of d ''products''
                = Some (JArr (map product_json (fst (basic_fresh_scan env mk sid w))))"
proof -
  let ?w1 = "w\<lparr>ticks := Suc (ticks w)\<rparr>"
  have rc: "read_clock env w = (clock env (ticks w), ?w1)" by (simp add: read_clock_def)
  obtain nm w2 where gn: "basic_get_seller_name env mk sid ?w1 = (nm, w2)" by (metis surj_pair)
  obtain products cr w3 where
    ul: "url_loop env mk sid (or_unknown_seller nm) (urls_to_try mk sid (clock env (ticks w))) [] 0 w2
           = ((products, cr), w3)"
    by (metis surj_pair)
  from assms have ne: "products \<noteq> []"
    by (simp add: basic_fresh_scan_def rc gn ul Let_def split: if_splits prod.splits)
  let ?data = "[(''seller_id'', JStr sid), (''seller_name'', JStr (or_unknown_seller nm)),
                (''products'', JArr (map product_json products)),
                (''product_count'', JNum (real (length products))),
                (''last_updated'', JNum (clock env (ticks w3))),
                (''pages_crawled'', JNum (real cr))]"
  have res: "basic_fresh_scan env mk sid w
     = (products, basic_save_to_cache env sid mk ?data (w3\<lparr>ticks := Suc (ticks w3)\<rparr>))"
    using ne by (simp add: basic_fresh_scan_def rc gn ul Let_def read_clock_def)
  let ?d = "?data @ [(''timestamp'', JNum (clock env (ticks (w3\<lparr>ticks := Suc (ticks w3)\<rparr>))))]"
  have "files (snd (basic_fresh_scan env mk sid w)) (get_cache_path env sid mk)
                = Some (json_dumps env (JObj ?d))
            \<and> map_of ?d ''products''
                = Some (JArr (map product_json (fst (basic_fresh_scan env mk sid w))))"
    by (simp add: res basic_save_to_cache_file)
  then show ?thesis by blast
qed

lemma enh_fresh_scan_cached:
  assumes "fst (enh_fresh_scan env sid mk w) = Inr (ps, name)"
  shows "\<exists>d. files (snd (enh_fresh_scan env sid mk w)) (get_cache_path env sid mk)
                = Some (json_dumps env (JObj d))
            \<and> map_of d ''products'' = Some (JArr (map eproduct_json ps))"
proof -
  obtain nm w1 where gn: "enh_get_seller_name env sid mk w = (nm, w1)" by (metis surj_pair)
  obtain r w2 where wp: "walk_patterns env SELLER_URL_PATTERNS mk sid [] w1 = (r, w2)"
    by (metis surj_pair)
  with assms gn obtain d where r: "r = Inr d" and ps: "ps = map snd d"
    by (auto simp: enh_fresh_scan_def Let_def split: sum.splits)
  let ?data = "[(''seller_id'', JStr sid), (''seller_name'', JStr (or_unknown_seller nm)),
                (''products'', JArr (map eproduct_json ps)), (''marketplace'', JStr mk)]"
  have res: "snd (enh_fresh_scan env sid mk w) = enh_save_to_cache env sid mk ?data w2"
    by (simp add: enh_fresh_scan_def gn wp r ps Let_def)
  let ?d = "?data @ [(''timestamp'', JStr (isoformat env (clock env (ticks w2))))]"
  have "files (snd (enh_fresh_scan env sid mk w)) (get_cache_path env sid mk)
                = Some (json_dumps env (JObj ?d))
            \<and> map_of ?d ''products'' = Some (JArr (map eproduct_json ps))"
    by (simp add: res enh_save_to_cache_file)
  then show ?thesis by blast
qed

lemma scraper_forced:
  "fst (scraper_get_seller_products env mk sid True w)
     = Inr (JArr (map product_json (fst (basic_fresh_scan env mk sid w))))"
  by (simp add: scraper_get_seller_products_def split_beta)

lemma scan_forced:
  "fst (enh_fresh_scan env sid mk w) = Inr (ps, name) \<Longrightarrow>
   fst (scan_seller_inventory env sid mk True w) = Inr (JArr (map eproduct_json ps), JStr name)"
  by (auto simp: scan_seller_inventory_def split: prod.splits sum.splits)

subsection \<open>The scenario of seller S1\<close>

lemma s1_env_sel [simp]:
  "net s1_env = s1_net" "soup_of s1_env = s1_soup" "json_loads s1_env = (\<lambda>c. None)"
  "clock s1_env = (\<lambda>i. 0)" "traf_fetch s1_env = (\<lambda>i url. None)"
  "CACHE_DIR s1_env = ''cache''"
  by (simp_all add: s1_env_def)

lemma s1_net_simps [simp]:
  "s1_net 0 u = None" "s1_net (Suc 0) u = Some ''P1''" "s1_net (Suc (Suc 0)) u = Some ''P0''"
  "s1_net (Suc (Suc (Suc 0))) u = Some ''P2''" "s1_net (Suc (Suc (Suc (Suc n)))) u = None"
  by (simp_all add: s1_net_def)

lemma strip_simps [simp]: "strip ''one'' = ''one''" "strip ''two'' = ''two''" "strip ''dup'' = ''dup''"
  by (simp_all add: strip_def is_space_def)

lemma item_sel [simp]:
  "attrs (item a t) ''data-asin'' = Some a"
  "sub_text (item a t) ''span.s-label-popover-default'' = None"
  "sub_text (item a t) title_selector = Some t"
  "sub_text (item a t) price_selector = None"
  by (simp_all add: item_def title_selector_def price_selector_def)

lemma extract_item:
  "a \<noteq> [] \<Longrightarrow> extract_product env ''S1'' (item a t) = Some ((enh_record a (strip t)))"
  by (simp add: extract_product_def extract_asin_def enh_record_def fmt_def)

lemma page_of_sel [simp]:
  "select (page_of es) sel = es" "next_parent_classes (page_of es) = None"
  by (simp_all add: page_of_def)

lemma first_selected_page_of:
  "first_selected (page_of es) sels = (if sels = [] then [] else es)"
  by (induction sels) (auto split: if_splits)

lemma first_selected_no_soup: "first_selected no_soup sels = []"
  by (induction sels) (simp_all add: no_soup_def)

lemma enh_records_P1:
  "enh_page_records s1_env ''S1'' ''P1''
     = [enh_record ''B000000001'' ''one'', enh_record ''B000000002'' ''two'']"
  by (simp add: enh_page_records_def extract_products_from_search_page_def s1_soup_def
        first_selected_page_of grid_selectors_def extract_item)

lemma enh_records_P2:
  "enh_page_records s1_env ''S1'' ''P2'' = [enh_record ''B000000001'' ''dup'']"
  by (simp add: enh_page_records_def extract_products_from_search_page_def s1_soup_def
        first_selected_page_of grid_selectors_def extract_item)

lemma enh_records_P0: "enh_page_records s1_env ''S1'' ''P0'' = []"
  by (simp add: enh_page_records_def extract_products_from_search_page_def s1_soup_def
        first_selected_no_soup)

lemma enh_record_sel [simp]: "e_asin (enh_record a t) = JStr a" "e_title (enh_record a t) = t"
  by (simp_all add: enh_record_def)

lemma s1_walk:
  "\<exists>w'. walk_patterns s1_env SELLER_URL_PATTERNS ''co.uk'' ''S1'' []
           (empty_world\<lparr>fetched := [enh_name_url ''co.uk'' ''S1'']\<rparr>)
     = (Inr [(JStr ''B000000001'', enh_record ''B000000001'' ''one''),
             (JStr ''B000000002'', enh_record ''B000000002'' ''two'')], w')"
  unfolding SELLER_URL_PATTERNS_def
  by (simp add: scan_pattern_def upt_1_8 [simplified] walk_pages_step
        enh_records_P1 enh_records_P2 enh_records_P0)

lemma s1_enh_scan:
  "fst (enh_fresh_scan s1_env ''S1'' ''co.uk'' empty_world)
     = Inr ([enh_record ''B000000001'' ''one'', enh_record ''B000000002'' ''two''],
            ''Unknown Seller'')"
proof -
  have gn: "enh_get_seller_name s1_env ''S1'' ''co.uk'' empty_world
              = (None, empty_world\<lparr>fetched := [enh_name_url ''co.uk'' ''S1'']\<rparr>)"
    using enh_get_seller_name_dead [of s1_env empty_world "''co.uk''" "''S1''"] by simp
  from s1_walk obtain w' where
    "walk_patterns s1_env SELLER_URL_PATTERNS ''co.uk'' ''S1'' []
           (empty_world\<lparr>fetched := [enh_name_url ''co.uk'' ''S1'']\<rparr>)
     = (Inr [(JStr ''B000000001'', enh_record ''B000000001'' ''one''),
             (JStr ''B000000002'', enh_record ''B000000002'' ''two'')], w')" by blast
  then show ?thesis
    by (simp add: enh_fresh_scan_def gn or_unknown_seller_def Let_def)
qed

lemma upper_co_uk: "upper ''co.uk'' = ''CO.UK''"
  by code_simp

lemma no_soup_sel [simp]: "select no_soup sel = []" "next_parent_classes no_soup = None"
  by (simp_all add: no_soup_def)

declare process_elements.simps(2) [simp del]

lemma item_basic_sel:
  "first_text (sub_text (item a t)) title_selectors = (if strip t \<noteq> [] then Some (strip t) else None)"
  "first_text (sub_text (item a t)) price_selectors = None"
  by (simp_all add: item_def title_selectors_def price_selectors_def title_selector_def)

lemma element_product_item:
  "length a = 10 \<Longrightarrow> strip t \<noteq> [] \<Longrightarrow>
   element_product ''co.uk'' ''S1'' ''Unknown Seller'' (item a t) = Some (basic_record a (strip t))"
  by (simp add: element_product_def item_basic_sel basic_record_def base_url_def upper_co_uk)

lemma basic_record_sel [simp]: "asin (basic_record a t) = a" "title (basic_record a t) = t"
  by (simp_all add: basic_record_def)

lemma s1_marker [simp]:
  "invalid_marker ''P1'' = False" "invalid_marker ''P0'' = False" "invalid_marker ''P2'' = False"
  by (simp_all add: invalid_marker_def)

lemma s1_selected [simp]:
  "first_selected (s1_soup ''P1'') product_selectors
     = [item ''B000000001'' ''one'', item ''B000000002'' ''two'']"
  "first_selected (s1_soup ''P2'') product_selectors = [item ''B000000001'' ''dup'']"
  "first_selected (s1_soup ''P0'') product_selectors = []"
  by (simp_all add: s1_soup_def first_selected_page_of first_selected_no_soup product_selectors_def)

lemma s1_last [simp]: "last_page (s1_soup ''P1'')" "last_page (s1_soup ''P2'')"
  by (simp_all add: s1_soup_def last_page_def)

lemma s1_process_P1:
  "process_elements ''co.uk'' ''S1'' ''Unknown Seller''
     [item ''B000000001'' ''one'', item ''B000000002'' ''two''] []
   = [basic_record ''B000000001'' ''one'', basic_record ''B000000002'' ''two'']"
  by (simp add: process_elements_unseen List.map_filter_simps element_product_item)

lemma s1_process_P2:
  "process_elements ''co.uk'' ''S1'' ''Unknown Seller'' [item ''B000000001'' ''dup''] []
   = [basic_record ''B000000001'' ''dup'']"
  by (simp add: process_elements_unseen List.map_filter_simps element_product_item)

lemma s1_url_loop:
  assumes "fetched w = [x]"
  shows "url_loop s1_env ''co.uk'' ''S1'' ''Unknown Seller'' (a # b # c # rest) [] 0 w
     = (([basic_record ''B000000001'' ''one'', basic_record ''B000000002'' ''two''], 2),
        w\<lparr>fetched := x # a # b # c # rest\<rparr>)"
proof -
  let ?w1 = "w\<lparr>fetched := [x, a]\<rparr>"
  let ?w2 = "w\<lparr>fetched := [x, a, b]\<rparr>"
  let ?w3 = "w\<lparr>fetched := [x, a, b, c]\<rparr>"
  let ?ps = "[basic_record ''B000000001'' ''one'', basic_record ''B000000002'' ''two'']"
  have 1: "page_loop s1_env ''co.uk'' ''S1'' ''Unknown Seller'' a 1 [] 0 w = ((?ps, 1), ?w1)"
    using assms by (simp add: page_loop_step s1_process_P1)
  have 2: "page_loop s1_env ''co.uk'' ''S1'' ''Unknown Seller'' b 1 [] 1 ?w1 = (([], 1), ?w2)"
    by (simp add: page_loop_step)
  have 3: "page_loop s1_env ''co.uk'' ''S1'' ''Unknown Seller'' c 1 [] 1 ?w2
             = (([basic_record ''B000000001'' ''dup''], 2), ?w3)"
    by (simp add: page_loop_step s1_process_P2)
  have 4: "url_loop s1_env ''co.uk'' ''S1'' ''Unknown Seller'' rest ?ps 2 ?w3
             = ((?ps, 2), ?w3\<lparr>fetched := fetched ?w3 @ rest\<rparr>)"
    by (rule url_loop_dead) (simp add: s1_net_def)
  show ?thesis using 1 2 3 4 by (simp add: add_unique_unseen)
qed

lemma s1_basic_scan:
  "fst (basic_fresh_scan s1_env ''co.uk'' ''S1'' empty_world)
     = [basic_record ''B000000001'' ''one'', basic_record ''B000000002'' ''two'']"
proof -
  let ?u = "basic_name_url ''co.uk'' ''S1''"
  let ?w1 = "empty_world\<lparr>ticks := Suc 0\<rparr>"
  let ?w2 = "?w1\<lparr>downloads := [?u], fetched := [?u]\<rparr>"
  have rc: "read_clock s1_env empty_world = (0, ?w1)" by (simp add: read_clock_def)
  have gn: "basic_get_seller_name s1_env ''co.uk'' ''S1'' ?w1 = (None, ?w2)"
    by (simp add: basic_get_seller_name_def basic_name_url_def make_request_def Let_def)
  have "\<exists>w3. url_loop s1_env ''co.uk'' ''S1'' ''Unknown Seller'' (urls_to_try ''co.uk'' ''S1'' 0) [] 0 ?w2
     = (([basic_record ''B000000001'' ''one'', basic_record ''B000000002'' ''two''], 2), w3)"
    unfolding urls_to_try_def by (subst s1_url_loop [where x = ?u]) simp_all
  then obtain w3 where ul: "url_loop s1_env ''co.uk'' ''S1'' ''Unknown Seller''
       (urls_to_try ''co.uk'' ''S1'' 0) [] 0 ?w2
     = (([basic_record ''B000000001'' ''one'', basic_record ''B000000002'' ''two''], 2), w3)"
    by blast
  show ?thesis
    by (simp add: basic_fresh_scan_def rc gn ul or_unknown_seller_def Let_def split_beta)
qed

subsection \<open>Where the records of a scan come from\<close>















lemma page_env_sel [simp]:
  "soup_of (page_env es) = (\<lambda>body. page_of es)" "net (page_env es) = (\<lambda>i u. None)"
  "json_loads (page_env es) = (\<lambda>c. None)"
  by (simp_all add: page_env_def)

lemma bare_item_sel [simp]:
  "attrs (bare_item a) = [''data-asin'' \<mapsto> a]" "sub_text (bare_item a) = Map.empty"
  by (simp_all add: bare_item_def)

lemma first_text_empty [simp]: "first_text Map.empty sels = None"
  by (induction sels) simp_all

lemma strip_blank [simp]: "strip '' '' = []"
  by (simp add: strip_def is_space_def)




lemma enh_records_P1_raw:
  "extract_products_from_search_page s1_env ''P1'' ''S1''
     = [enh_record ''B000000001'' ''one'', enh_record ''B000000002'' ''two'']"
  using enh_records_P1 by (simp add: enh_page_records_def)

subsection \<open>Counting and extending\<close>

lemma walk_pages_count:
  "walk_pages env pat mk sid pages d c w = (Inr (d', c'), w') \<Longrightarrow>
     \<exists>us. w' = w\<lparr>fetched := fetched w @ us\<rparr>
        \<and> c' = c + length (seen_log env (enh_page_records env sid) (length (fetched w)) us)"
proof (induction pages arbitrary: d c w)
  case Nil
  then have "w' = w\<lparr>fetched := fetched w @ []\<rparr>
        \<and> c' = c + length (seen_log env (enh_page_records env sid) (length (fetched w)) [])"
    by auto
  then show ?case by blast
next
  case (Cons page pages)
  let ?url = "format_url pat mk sid page"
  let ?n = "length (fetched w)"
  let ?w1 = "w\<lparr>fetched := fetched w @ [?url]\<rparr>"
  let ?recs = "enh_page_records env sid"
  note run = Cons.prems [unfolded walk_pages_step]
  have one: "w' = ?w1 \<Longrightarrow> c' = c \<Longrightarrow> seen_log env ?recs ?n [?url] = [] \<Longrightarrow> ?case"
  proof -
    assume "w' = ?w1" "c' = c" "seen_log env ?recs ?n [?url] = []"
    then have "w' = w\<lparr>fetched := fetched w @ [?url]\<rparr>
        \<and> c' = c + length (seen_log env ?recs ?n [?url])" by simp
    then show ?case by blast
  qed
  show ?case
  proof (cases "net env ?n ?url")
    case None
    with run show ?thesis by (intro one) (simp_all add: seen_log_Cons)
  next
    case (Some body)
    show ?thesis
    proof (cases "?recs body = []")
      case True
      with run Some show ?thesis by (intro one) (simp_all add: seen_log_Cons)
    next
      case False
      from run Some False obtain d1 where
        rec: "walk_pages env pat mk sid pages d1 (c + length (?recs body)) ?w1 = (Inr (d', c'), w')"
        by (auto split: sum.splits)
      from Cons.IH [OF rec]
      obtain us where us: "w' = ?w1\<lparr>fetched := fetched ?w1 @ us\<rparr>"
        "c' = c + length (?recs body) + length (seen_log env ?recs (length (fetched ?w1)) us)"
        by blast
      have "seen_log env ?recs ?n (?url # us) = ?recs body @ seen_log env ?recs (Suc ?n) us"
        using Some by (simp add: seen_log_Cons)
      then have "w' = w\<lparr>fetched := fetched w @ (?url # us)\<rparr>
        \<and> c' = c + length (seen_log env ?recs ?n (?url # us))"
        using us by simp
      then show ?thesis by blast
    qed
  qed
qed

lemma walk_extra_first:
  "\<exists>us. fetched (snd (walk_extra env pat mk sid (page # pages) d w))
          = fetched w @ format_url pat mk sid page # us
        \<and> length us \<le> length pages"
proof -
  let ?url = "format_url pat mk sid page"
  let ?w1 = "w\<lparr>fetched := fetched w @ [?url]\<rparr>"
  have stop: "snd (walk_extra env pat mk sid (page # pages) d w) = ?w1 \<Longrightarrow> ?thesis"
  proof -
    assume "snd (walk_extra env pat mk sid (page # pages) d w) = ?w1"
    then have "fetched (snd (walk_extra env pat mk sid (page # pages) d w))
          = fetched w @ ?url # [] \<and> length ([]::string list) \<le> length pages" by simp
    then show ?thesis by blast
  qed
  show ?thesis
  proof (cases "net env (length (fetched w)) ?url")
    case None
    then show ?thesis by (intro stop) (simp add: walk_extra_step)
  next
    case (Some body)
    show ?thesis
    proof (cases "enh_page_records env sid body = []")
      case True
      with Some show ?thesis by (intro stop) (simp add: walk_extra_step)
    next
      case False
      show ?thesis
      proof (cases "add_new d (enh_page_records env sid body)")
        case (Inl err)
        with Some False show ?thesis by (intro stop) (simp add: walk_extra_step)
      next
        case (Inr d1)
        from walk_extra_log [of pages env pat mk sid d1 ?w1]
        obtain k where k: "k \<le> length pages" "snd (walk_extra env pat mk sid pages d1 ?w1)
          = ?w1\<lparr>fetched := fetched ?w1 @ map (format_url pat mk sid) (take k pages)\<rparr>"
          by blast
        have "fetched (snd (walk_extra env pat mk sid (page # pages) d w))
          = fetched w @ ?url # map (format_url pat mk sid) (take k pages)
          \<and> length (map (format_url pat mk sid) (take k pages)) \<le> length pages"
          using k Some False Inr by (simp add: walk_extra_step)
        then show ?thesis by blast
      qed
    qed
  qed
qed

lemma page_loop_log:
  "101 - page = k \<Longrightarrow>
     \<exists>n\<le>k. snd (page_loop env mk sid sname url0 page pp cr w)
        = w\<lparr>fetched := fetched w @ map (basic_page_url url0) [page..<page + n]\<rparr>"
proof (induction k arbitrary: page pp cr w)
  case 0
  then have "\<not> page \<le> 100" by simp
  then have "snd (page_loop env mk sid sname url0 page pp cr w)
        = w\<lparr>fetched := fetched w @ map (basic_page_url url0) [page..<page + 0]\<rparr>"
    by (simp add: page_loop_done)
  then show ?case by blast
next
  case (Suc k)
  let ?url = "basic_page_url url0 page"
  let ?w1 = "w\<lparr>fetched := fetched w @ [?url]\<rparr>"
  from Suc.prems have le: "page \<le> 100" by simp
  have stop: "snd (page_loop env mk sid sname url0 page pp cr w) = ?w1 \<Longrightarrow> ?case"
  proof -
    assume "snd (page_loop env mk sid sname url0 page pp cr w) = ?w1"
    then have "Suc 0 \<le> Suc k \<and> snd (page_loop env mk sid sname url0 page pp cr w)
        = w\<lparr>fetched := fetched w @ map (basic_page_url url0) [page..<page + Suc 0]\<rparr>"
      by simp
    then show ?case by blast
  qed
  show ?case
  proof (cases "net env (length (fetched w)) ?url")
    case None
    then show ?thesis by (intro stop) (simp add: page_loop_step [OF le])
  next
    case (Some body)
    let ?els = "first_selected (soup_of env body) product_selectors"
    show ?thesis
    proof (cases "invalid_marker body \<or> ?els = [] \<or> last_page (soup_of env body)")
      case True
      with Some show ?thesis by (intro stop) (auto simp: page_loop_step [OF le])
    next
      case False
      let ?pp1 = "process_elements mk sid sname ?els pp"
      from Suc.prems have "101 - (page + 1) = k" by simp
      from Suc.IH [OF this, of ?pp1 "cr + 1" ?w1]
      obtain n where n: "n \<le> k" "snd (page_loop env mk sid sname url0 (page + 1) ?pp1 (cr + 1) ?w1)
        = ?w1\<lparr>fetched := fetched ?w1 @ map (basic_page_url url0) [page + 1..<page + 1 + n]\<rparr>"
        by blast
      have "[page..<page + Suc n] = page # [page + 1..<page + 1 + n]"
        by (simp add: upt_conv_Cons)
      then have "Suc n \<le> Suc k \<and> snd (page_loop env mk sid sname url0 page pp cr w)
        = w\<lparr>fetched := fetched w @ map (basic_page_url url0) [page..<page + Suc n]\<rparr>"
        using n Some False by (simp add: page_loop_step [OF le])
      then show ?thesis by blast
    qed
  qed
qed

lemma c9_env_sel [simp]:
  "net c9_env = (\<lambda>i u. if i = 0 then Some ''P100'' else None)"
  "soup_of c9_env = (\<lambda>body. page_of (replicate 100 (item ''B000000001'' ''one'')))"
  by (simp_all add: c9_env_def)

lemma extract_elements_replicate:
  "extract_product env sid e = Some p \<Longrightarrow> extract_elements env sid (replicate n e) = replicate n p"
  by (induction n) simp_all

lemma add_new_replicate:
  "hashable (e_asin r) \<Longrightarrow>
   add_new [(dict_key (e_asin r), r)] (replicate n r) = Inr [(dict_key (e_asin r), r)]"
  by (induction n) simp_all

lemma add_new_replicate_empty:
  "hashable (e_asin r) \<Longrightarrow> add_new [] (replicate (Suc n) r) = Inr [(dict_key (e_asin r), r)]"
  by (simp add: add_new_replicate)

lemma c9_records:
  "enh_page_records c9_env ''S1'' body = replicate 100 (enh_record ''B000000001'' ''one'')"
  by (simp add: enh_page_records_def extract_products_from_search_page_def
        first_selected_page_of grid_selectors_def extract_elements_replicate extract_item)

lemma c9_add_new:
  "add_new [] (replicate 100 (enh_record ''B000000001'' ''one''))
     = Inr [(JStr ''B000000001'', enh_record ''B000000001'' ''one'')]"
proof -
  have "(100::nat) = Suc 99" by simp
  then show ?thesis by (simp only: add_new_replicate_empty enh_record_sel hashable.simps dict_key.simps)
qed

lemma c9_walk:
  "walk_pages c9_env pat ''co.uk'' ''S1'' [1..<8] [] 0 empty_world
     = (Inr ([(JStr ''B000000001'', enh_record ''B000000001'' ''one'')], 100),
        empty_world\<lparr>fetched := [format_url pat ''co.uk'' ''S1'' 1, format_url pat ''co.uk'' ''S1'' 2]\<rparr>)"
  unfolding upt_1_8
  by (simp add: walk_pages_step c9_records c9_add_new)

lemma c9_scan:
  "scan_pattern c9_env pat ''co.uk'' ''S1'' [] empty_world
     = (Inr [(JStr ''B000000001'', enh_record ''B000000001'' ''one'')],
        empty_world\<lparr>fetched := [format_url pat ''co.uk'' ''S1'' 1, format_url pat ''co.uk'' ''S1'' 2,
                                 format_url pat ''co.uk'' ''S1'' 8]\<rparr>)"
  unfolding scan_pattern_def c9_walk upt_8_16
  by (simp add: walk_extra_step)

lemma s1_walk_pages:
  "walk_pages s1_env pat ''co.uk'' ''S1'' [1..<8] [] 0 (empty_world\<lparr>fetched := [x]\<rparr>)
     = (Inr ([(JStr ''B000000001'', enh_record ''B000000001'' ''one''),
              (JStr ''B000000002'', enh_record ''B000000002'' ''two'')], 2),
        empty_world\<lparr>fetched := [x, format_url pat ''co.uk'' ''S1'' 1, format_url pat ''co.uk'' ''S1'' 2]\<rparr>)"
  unfolding upt_1_8
  by (simp add: walk_pages_step enh_records_P1 enh_records_P0)


subsection \<open>The URLs a scan may request\<close>

lemma subseq_take_map: "subseq (map f (take k xs)) (map f xs)"
  by (intro subseq_map prefix_imp_subseq take_is_prefix)

lemma upt_1_16: "[1..<16] = [1..<8] @ [8..<16]"
  by (simp add: upt_rec)

lemma scan_pattern_log:
  "\<exists>us. snd (scan_pattern env pat mk sid d w) = w\<lparr>fetched := fetched w @ us\<rparr>
        \<and> subseq us (map (format_url pat mk sid) [1..<16])"
proof -
  let ?f = "format_url pat mk sid"
  obtain r w1 where wp: "walk_pages env pat mk sid [1..<8] d 0 w = (r, w1)" by (metis surj_pair)
  from walk_pages_log [of "[1..<8]" env pat mk sid d 0 w] wp
  obtain j where j: "w1 = w\<lparr>fetched := fetched w @ map ?f (take j [1..<8])\<rparr>" by auto
  let ?A = "map ?f (take j [1..<8])"
  have A: "subseq ?A (map ?f [1..<8])" by (rule subseq_take_map)
  have short: "snd (scan_pattern env pat mk sid d w) = w1 \<Longrightarrow> ?thesis"
  proof -
    assume "snd (scan_pattern env pat mk sid d w) = w1"
    moreover have "subseq ?A (map ?f [1..<16])"
      unfolding upt_1_16 map_append by (rule subseq_rev_drop_many [OF A])
    ultimately have "snd (scan_pattern env pat mk sid d w) = w\<lparr>fetched := fetched w @ ?A\<rparr>
        \<and> subseq ?A (map ?f [1..<16])" using j by simp
    then show ?thesis by blast
  qed
  show ?thesis
  proof (cases r)
    case (Inl err)
    with wp show ?thesis by (intro short) (simp add: scan_pattern_def)
  next
    case (Inr dc)
    obtain d1 c where dc: "dc = (d1, c)" by (cases dc)
    show ?thesis
    proof (cases "100 \<le> c")
      case False
      with wp Inr dc show ?thesis by (intro short) (simp add: scan_pattern_def)
    next
      case True
      with wp Inr dc have sp: "scan_pattern env pat mk sid d w = walk_extra env pat mk sid [8..<16] d1 w1"
        by (simp add: scan_pattern_def)
      from walk_extra_log [of "[8..<16]" env pat mk sid d1 w1]
      obtain k where k: "snd (walk_extra env pat mk sid [8..<16] d1 w1)
          = w1\<lparr>fetched := fetched w1 @ map ?f (take k [8..<16])\<rparr>" by blast
      let ?B = "map ?f (take k [8..<16])"
      have "subseq ?B (map ?f [8..<16])" by (rule subseq_take_map)
      with A have "subseq (?A @ ?B) (map ?f [1..<16])"
        unfolding upt_1_16 map_append by (rule list_emb_append_mono)
      moreover have "snd (scan_pattern env pat mk sid d w) = w\<lparr>fetched := fetched w @ (?A @ ?B)\<rparr>"
        using sp k j by simp
      ultimately show ?thesis by blast
    qed
  qed
qed

lemma walk_patterns_log:
  "\<exists>us. snd (walk_patterns env pats mk sid d w) = w\<lparr>fetched := fetched w @ us\<rparr>
        \<and> subseq us (concat (map (\<lambda>pat. map (format_url pat mk sid) [1..<16]) pats))"
proof (induction pats arbitrary: d w)
  case Nil
  have "snd (walk_patterns env [] mk sid d w) = w\<lparr>fetched := fetched w @ []\<rparr>
        \<and> subseq [] (concat (map (\<lambda>pat. map (format_url pat mk sid) [1..<16]) []))" by simp
  then show ?case by blast
next
  case (Cons pat pats)
  let ?C = "concat (map (\<lambda>pat. map (format_url pat mk sid) [1..<16]) pats)"
  let ?P = "map (format_url pat mk sid) [1..<16]"
  obtain r w1 where sp: "scan_pattern env pat mk sid d w = (r, w1)" by (metis surj_pair)
  from scan_pattern_log [of env pat mk sid d w] sp
  obtain us where us: "w1 = w\<lparr>fetched := fetched w @ us\<rparr>" "subseq us ?P" by auto
  show ?case
  proof (cases r)
    case (Inl err)
    have "subseq us (?P @ ?C)" by (rule subseq_rev_drop_many [OF us(2)])
    then have "snd (walk_patterns env (pat # pats) mk sid d w) = w\<lparr>fetched := fetched w @ us\<rparr>
        \<and> subseq us (concat (map (\<lambda>pat. map (format_url pat mk sid) [1..<16]) (pat # pats)))"
      using sp Inl us(1) by simp
    then show ?thesis by blast
  next
    case (Inr d1)
    from Cons.IH [of d1 w1]
    obtain vs where vs: "snd (walk_patterns env pats mk sid d1 w1) = w1\<lparr>fetched := fetched w1 @ vs\<rparr>"
      "subseq vs ?C" by blast
    have "subseq (us @ vs) (?P @ ?C)" using us(2) vs(2) by (rule list_emb_append_mono)
    then have "snd (walk_patterns env (pat # pats) mk sid d w) = w\<lparr>fetched := fetched w @ (us @ vs)\<rparr>
        \<and> subseq (us @ vs) (concat (map (\<lambda>pat. map (format_url pat mk sid) [1..<16]) (pat # pats)))"
      using sp Inr us(1) vs(1) by simp
    then show ?thesis by blast
  qed
qed

lemma upt_prefix_101: "n \<le> 100 \<Longrightarrow> prefix [1..<1 + n] [1..<101]"
proof -
  assume "n \<le> 100"
  then have "[1..<101] = [1..<1 + n] @ [1 + n..<101]"
    using upt_add_eq_append [of 1 "1 + n" "100 - n"] by simp
  then show ?thesis by (metis prefixI)
qed

lemma url_loop_log:
  "\<exists>us. snd (url_loop env mk sid sname urls products cr w) = w\<lparr>fetched := fetched w @ us\<rparr>
        \<and> subseq us (concat (map (\<lambda>url0. map (basic_page_url url0) [1..<101]) urls))"
proof (induction urls arbitrary: products cr w)
  case Nil
  have "snd (url_loop env mk sid sname [] products cr w) = w\<lparr>fetched := fetched w @ []\<rparr>
        \<and> subseq [] (concat (map (\<lambda>url0. map (basic_page_url url0) [1..<101]) []))" by simp
  then show ?case by blast
next
  case (Cons url0 urls)
  let ?C = "concat (map (\<lambda>url0. map (basic_page_url url0) [1..<101]) urls)"
  let ?P = "map (basic_page_url url0) [1..<101]"
  obtain pp cr1 w1 where pl: "page_loop env mk sid sname url0 1 [] cr w = ((pp, cr1), w1)"
    by (metis surj_pair)
  from page_loop_log [of 1 100 env mk sid sname url0 "[]" cr w] pl
  obtain n where n: "n \<le> 100" "w1 = w\<lparr>fetched := fetched w @ map (basic_page_url url0) [1..<1 + n]\<rparr>"
    by auto
  let ?us = "map (basic_page_url url0) [1..<1 + n]"
  have us: "subseq ?us ?P"
    by (intro subseq_map prefix_imp_subseq upt_prefix_101 n(1))
  from Cons.IH [of "add_unique products pp" cr1 w1]
  obtain vs where vs: "snd (url_loop env mk sid sname urls (add_unique products pp) cr1 w1)
       = w1\<lparr>fetched := fetched w1 @ vs\<rparr>" "subseq vs ?C" by blast
  have "subseq (?us @ vs) (?P @ ?C)" using us vs(2) by (rule list_emb_append_mono)
  then have "snd (url_loop env mk sid sname (url0 # urls) products cr w)
         = w\<lparr>fetched := fetched w @ (?us @ vs)\<rparr>
        \<and> subseq (?us @ vs) (concat (map (\<lambda>url0. map (basic_page_url url0) [1..<101]) (url0 # urls)))"
    using pl n(2) vs(1) by simp
  then show ?case by blast
qed

lemma py_int_values: "py_int 0 = 0" "py_int 1 = 1" "py_int (3 / 2) = 1"
  by (simp_all add: py_int_def)


lemma char_of_digits: "char_of (48 :: nat) = CHR ''0''" "char_of (49 :: nat) = CHR ''1''"
  by code_simp+

lemma str_int_digits: "str_int 0 = ''0''" "str_int 1 = ''1''"
  by (simp_all add: str_int_def str_nat.simps digit_char_def char_of_digits)

subsection \<open>A failed request does not end the scan\<close>

lemma basic_fresh_scan_dead_log:
  assumes dead: "\<And>i u. net env i u = None"
  shows "\<exists>w' us. basic_fresh_scan env mk sid w = ([], w')
           \<and> fetched w' = fetched w @ us @ urls_to_try mk sid (clock env (ticks w))
           \<and> (us = [] \<or> us = [basic_name_url mk sid])"
proof -
  let ?w1 = "w\<lparr>ticks := Suc (ticks w)\<rparr>"
  let ?u = "base_url mk @ ''/sp?seller='' @ sid"
  have rc: "read_clock env w = (clock env (ticks w), ?w1)" by (simp add: read_clock_def)
  obtain nm w2 where gn: "basic_get_seller_name env mk sid ?w1 = (nm, w2)" by (metis surj_pair)
  from basic_get_seller_name_dead [of env ?w1 mk sid, OF dead] gn
  have "\<exists>us. fetched w2 = fetched w @ us \<and> (us = [] \<or> us = [basic_name_url mk sid])"
  proof (elim disjE exE)
    fix name
    assume "basic_get_seller_name env mk sid ?w1 = (Some name, ?w1\<lparr>downloads := downloads ?w1 @ [?u]\<rparr>)"
    with gn have "fetched w2 = fetched w @ [] \<and> ([] = [] \<or> [] = [basic_name_url mk sid])"
      by auto
    then show ?thesis by blast
  next
    assume "basic_get_seller_name env mk sid ?w1
       = (None, ?w1\<lparr>downloads := downloads ?w1 @ [?u], fetched := fetched ?w1 @ [?u]\<rparr>)"
    with gn have "fetched w2 = fetched w @ [basic_name_url mk sid]
        \<and> ([basic_name_url mk sid] = [] \<or> [basic_name_url mk sid] = [basic_name_url mk sid])"
      by (auto simp: basic_name_url_def)
    then show ?thesis by blast
  qed
  then obtain us where us: "fetched w2 = fetched w @ us" "us = [] \<or> us = [basic_name_url mk sid]"
    by blast
  let ?urls = "urls_to_try mk sid (clock env (ticks w))"
  have ul: "url_loop env mk sid (or_unknown_seller nm) ?urls [] 0 w2
     = (([], 0), w2\<lparr>fetched := fetched w2 @ ?urls\<rparr>)"
    by (rule url_loop_dead) (rule dead)
  have "basic_fresh_scan env mk sid w = ([], w2\<lparr>fetched := fetched w2 @ ?urls\<rparr>)"
    by (simp add: basic_fresh_scan_def rc gn ul Let_def)
  with us show ?thesis by simp
qed

lemma walk_patterns_skip:
  "net env (length (fetched w)) (format_url pat mk sid 1) = None \<Longrightarrow>
   walk_patterns env (pat # pats) mk sid d w
     = walk_patterns env pats mk sid d (w\<lparr>fetched := fetched w @ [format_url pat mk sid 1]\<rparr>)"
  by (simp add: scan_pattern_dead)

lemma url_loop_skip:
  "net env (length (fetched w)) url0 = None \<Longrightarrow>
   url_loop env mk sid sname (url0 # urls) products cr w
     = url_loop env mk sid sname urls products cr (w\<lparr>fetched := fetched w @ [url0]\<rparr>)"
  using page_loop_dead [of 1 env w url0 mk sid sname "[]" cr] by simp
section \<open>The claims\<close>








text \<open>
  C4. When the Fetcher fails on every URL, the scan goes on through every query variant
  and requests page 1 of each, in order, once: after the request for the seller name,
  the 15 variants in \<^verbatim>\<open>enhanced_amazon_scraper\<close> (16 requests), and the 14 variants in
  \<^verbatim>\<open>amazon_scraper\<close> (14 requests, or 15 when the seller name was asked of the Fetcher
  too), within the product of the number of variants and the page ceiling. It returns
  the empty product set and raises nothing, and so do the entry points. In general, a
  request without a response ends the walk of its variant only: the walk hands on,
  unchanged and without an exception, everything found so far, and the scan proceeds
  with the next variant.
\<close>

theorem failing_fetcher_scan_empty:
  "((\<forall>i u. net env i u = None) \<longrightarrow>
      (\<exists>w'. enh_fresh_scan env sid mk w = (Inr ([], ''Unknown Seller''), w')
            \<and> fetched w' = fetched w @ enh_name_url mk sid
                               # map (\<lambda>pat. format_url pat mk sid 1) SELLER_URL_PATTERNS
            \<and> length (fetched w') = length (fetched w) + 16
            \<and> length (fetched w') \<le> length (fetched w) + length SELLER_URL_PATTERNS * 7)
      \<and> fst (enh_get_seller_products env sid mk True w) = Inr (JArr [])
      \<and> (\<exists>w' us. basic_fresh_scan env mk sid w = ([], w')
            \<and> fetched w' = fetched w @ us @ urls_to_try mk sid (clock env (ticks w))
            \<and> (us = [] \<or> us = [basic_name_url mk sid])
            \<and> length (fetched w) + 14 \<le> length (fetched w')
            \<and> length (fetched w') \<le> length (fetched w) + 15
            \<and> length (fetched w')
                 \<le> length (fetched w) + length (urls_to_try mk sid (clock env (ticks w))) * 100)
      \<and> fst (basic_get_seller_products env sid mk True w) = Inr (JArr []))
   \<and> (net env (length (fetched w)) (format_url pat mk sid page) = None \<longrightarrow>
        walk_pages env pat mk sid (page # pages) d c w
          = (Inr (d, c), w\<lparr>fetched := fetched w @ [format_url pat mk sid page]\<rparr>)
        \<and> walk_extra env pat mk sid (page # pages) d w
          = (Inr d, w\<lparr>fetched := fetched w @ [format_url pat mk sid page]\<rparr>))
   \<and> (page \<le> 100 \<and> net env (length (fetched w)) (basic_page_url url0 page) = None \<longrightarrow>
        page_loop env mk sid sname url0 page pp cr w
          = ((pp, cr), w\<lparr>fetched := fetched w @ [basic_page_url url0 page]\<rparr>))
   \<and> (net env (length (fetched w)) (format_url pat mk sid 1) = None \<longrightarrow>
        walk_patterns env (pat # pats) mk sid d w
          = walk_patterns env pats mk sid d (w\<lparr>fetched := fetched w @ [format_url pat mk sid 1]\<rparr>))
   \<and> (net env (length (fetched w)) url0 = None \<longrightarrow>
        url_loop env mk sid sname (url0 # urls) products cr w
          = url_loop env mk sid sname urls products cr (w\<lparr>fetched := fetched w @ [url0]\<rparr>))"
proof (intro conjI impI)
  assume dead: "\<forall>i u. net env i u = None"
  from enh_fresh_scan_dead [of env sid mk w] dead
  obtain w' where w': "enh_fresh_scan env sid mk w = (Inr ([], ''Unknown Seller''), w')"
    "fetched w' = fetched w @ enh_name_url mk sid
        # map (\<lambda>pat. format_url pat mk sid 1) SELLER_URL_PATTERNS"
    by blast
  then have "enh_fresh_scan env sid mk w = (Inr ([], ''Unknown Seller''), w')
            \<and> fetched w' = fetched w @ enh_name_url mk sid
                               # map (\<lambda>pat. format_url pat mk sid 1) SELLER_URL_PATTERNS
            \<and> length (fetched w') = length (fetched w) + 16
            \<and> length (fetched w') \<le> length (fetched w) + length SELLER_URL_PATTERNS * 7"
    by (simp add: length_SELLER_URL_PATTERNS)
  then show "\<exists>w'. enh_fresh_scan env sid mk w = (Inr ([], ''Unknown Seller''), w')
            \<and> fetched w' = fetched w @ enh_name_url mk sid
                               # map (\<lambda>pat. format_url pat mk sid 1) SELLER_URL_PATTERNS
            \<and> length (fetched w') = length (fetched w) + 16
            \<and> length (fetched w') \<le> length (fetched w) + length SELLER_URL_PATTERNS * 7"
    by blast
  from dead show "fst (enh_get_seller_products env sid mk True w) = Inr (JArr [])"
    by (simp add: enh_top_dead)
  from basic_fresh_scan_dead_log [of env mk sid w] dead
  obtain v' us where v': "basic_fresh_scan env mk sid w = ([], v')"
    "fetched v' = fetched w @ us @ urls_to_try mk sid (clock env (ticks w))"
    "us = [] \<or> us = [basic_name_url mk sid]"
    by blast
  from v'(3) have "length us \<le> 1" by auto
  with v' have "basic_fresh_scan env mk sid w = ([], v')
            \<and> fetched v' = fetched w @ us @ urls_to_try mk sid (clock env (ticks w))
            \<and> (us = [] \<or> us = [basic_name_url mk sid])
            \<and> length (fetched w) + 14 \<le> length (fetched v')
            \<and> length (fetched v') \<le> length (fetched w) + 15
            \<and> length (fetched v')
                 \<le> length (fetched w) + length (urls_to_try mk sid (clock env (ticks w))) * 100"
    by (simp add: length_urls_to_try)
  then show "\<exists>w' us. basic_fresh_scan env mk sid w = ([], w')
            \<and> fetched w' = fetched w @ us @ urls_to_try mk sid (clock env (ticks w))
            \<and> (us = [] \<or> us = [basic_name_url mk sid])
            \<and> length (fetched w) + 14 \<le> length (fetched w')
            \<and> length (fetched w') \<le> length (fetched w) + 15
            \<and> length (fetched w')
                 \<le> length (fetched w) + length (urls_to_try mk sid (clock env (ticks w))) * 100"
    by blast
  from dead show "fst (basic_get_seller_products env sid mk True w) = Inr (JArr [])"
    by (simp add: basic_top_dead)
next
  assume "net env (length (fetched w)) (format_url pat mk sid page) = None"
  then show "walk_pages env pat mk sid (page # pages) d c w
          = (Inr (d, c), w\<lparr>fetched := fetched w @ [format_url pat mk sid page]\<rparr>)"
    and "walk_extra env pat mk sid (page # pages) d w
          = (Inr d, w\<lparr>fetched := fetched w @ [format_url pat mk sid page]\<rparr>)"
    by (simp_all add: walk_pages_step walk_extra_step)
next
  assume "page \<le> 100 \<and> net env (length (fetched w)) (basic_page_url url0 page) = None"
  then show "page_loop env mk sid sname url0 page pp cr w
          = ((pp, cr), w\<lparr>fetched := fetched w @ [basic_page_url url0 page]\<rparr>)"
    by (simp add: page_loop_dead)
next
  assume "net env (length (fetched w)) (format_url pat mk sid 1) = None"
  then show "walk_patterns env (pat # pats) mk sid d w
          = walk_patterns env pats mk sid d (w\<lparr>fetched := fetched w @ [format_url pat mk sid 1]\<rparr>)"
    by (rule walk_patterns_skip)
next
  assume "net env (length (fetched w)) url0 = None"
  then show "url_loop env mk sid sname (url0 # urls) products cr w
          = url_loop env mk sid sname urls products cr (w\<lparr>fetched := fetched w @ [url0]\<rparr>)"
    by (rule url_loop_skip)
qed

text \<open>Witness: seller \<^verbatim>\<open>S1\<close> in a world where every request fails.\<close>

theorem failing_fetcher_scan_empty_witness:
  "fst (enh_fresh_scan dead_env ''S1'' ''co.uk'' empty_world) = Inr ([], ''Unknown Seller'')
   \<and> fetched (snd (enh_fresh_scan dead_env ''S1'' ''co.uk'' empty_world))
       = enh_name_url ''co.uk'' ''S1''
           # map (\<lambda>pat. format_url pat ''co.uk'' ''S1'' 1) SELLER_URL_PATTERNS
   \<and> length (fetched (snd (enh_fresh_scan dead_env ''S1'' ''co.uk'' empty_world))) = 16
   \<and> fst (enh_get_seller_products dead_env ''S1'' ''co.uk'' True empty_world) = Inr (JArr [])
   \<and> fst (basic_fresh_scan dead_env ''co.uk'' ''S1'' empty_world) = []
   \<and> suffix (urls_to_try ''co.uk'' ''S1'' 0)
        (fetched (snd (basic_fresh_scan dead_env ''co.uk'' ''S1'' empty_world)))
   \<and> 14 \<le> length (fetched (snd (basic_fresh_scan dead_env ''co.uk'' ''S1'' empty_world)))
   \<and> length (fetched (snd (basic_fresh_scan dead_env ''co.uk'' ''S1'' empty_world))) \<le> 15
   \<and> fst (basic_get_seller_products dead_env ''S1'' ''co.uk'' True empty_world) = Inr (JArr [])
   \<and> walk_pages dead_env [Lit ''u'', Page] ''co.uk'' ''S1'' [1, 2] [] 0 empty_world
        = (Inr ([], 0), empty_world\<lparr>fetched := [format_url [Lit ''u'', Page] ''co.uk'' ''S1'' 1]\<rparr>)
   \<and> page_loop dead_env ''co.uk'' ''S1'' ''N'' ''u'' 1 [] 0 empty_world
        = (([], 0), empty_world\<lparr>fetched := [''u'']\<rparr>)
   \<and> walk_patterns dead_env [[Lit ''u'', Page]] ''co.uk'' ''S1'' [] empty_world
        = (Inr [], empty_world\<lparr>fetched := [format_url [Lit ''u'', Page] ''co.uk'' ''S1'' 1]\<rparr>)
   \<and> url_loop dead_env ''co.uk'' ''S1'' ''N'' [''u''] [] 0 empty_world
        = (([], 0), empty_world\<lparr>fetched := [''u'']\<rparr>)"
proof -
  have dead: "\<forall>i u. net dead_env i u = None" by simp
  have ck: "clock dead_env (ticks empty_world) = 0" by (simp add: dead_env_def)
  note t = failing_fetcher_scan_empty [of dead_env "''S1''" "''co.uk''" empty_world
              "[Lit ''u'', Page]" 1 "[2]" "[]" 0 "''u''" "''N''" "[]" 0 "[]" "[]" "[]"]
  from t dead have a: "(\<exists>w'. enh_fresh_scan dead_env ''S1'' ''co.uk'' empty_world
                               = (Inr ([], ''Unknown Seller''), w')
            \<and> fetched w' = fetched empty_world @ enh_name_url ''co.uk'' ''S1''
                               # map (\<lambda>pat. format_url pat ''co.uk'' ''S1'' 1) SELLER_URL_PATTERNS
            \<and> length (fetched w') = length (fetched empty_world) + 16
            \<and> length (fetched w') \<le> length (fetched empty_world) + length SELLER_URL_PATTERNS * 7)"
    and b: "fst (enh_get_seller_products dead_env ''S1'' ''co.uk'' True empty_world) = Inr (JArr [])"
    and c: "(\<exists>w' us. basic_fresh_scan dead_env ''co.uk'' ''S1'' empty_world = ([], w')
            \<and> fetched w' = fetched empty_world @ us
                 @ urls_to_try ''co.uk'' ''S1'' (clock dead_env (ticks empty_world))
            \<and> (us = [] \<or> us = [basic_name_url ''co.uk'' ''S1''])
            \<and> length (fetched empty_world) + 14 \<le> length (fetched w')
            \<and> length (fetched w') \<le> length (fetched empty_world) + 15
            \<and> length (fetched w')
                 \<le> length (fetched empty_world)
                    + length (urls_to_try ''co.uk'' ''S1'' (clock dead_env (ticks empty_world))) * 100)"
    and e: "fst (basic_get_seller_products dead_env ''S1'' ''co.uk'' True empty_world) = Inr (JArr [])"
    by blast+
  have n1: "net dead_env (length (fetched empty_world))
              (format_url [Lit ''u'', Page] ''co.uk'' ''S1'' 1) = None" by simp
  have n2: "1 \<le> (100::nat) \<and> net dead_env (length (fetched empty_world)) (basic_page_url ''u'' 1) = None"
    by simp
  have n3: "net dead_env (length (fetched empty_world)) ''u'' = None" by simp
  from t [THEN conjunct2, THEN conjunct1, rule_format, OF n1]
  have f: "walk_pages dead_env [Lit ''u'', Page] ''co.uk'' ''S1'' [1, 2] [] 0 empty_world
        = (Inr ([], 0), empty_world\<lparr>fetched := [format_url [Lit ''u'', Page] ''co.uk'' ''S1'' 1]\<rparr>)"
    by simp
  from t [THEN conjunct2, THEN conjunct2, THEN conjunct1, rule_format, OF n2]
  have g: "page_loop dead_env ''co.uk'' ''S1'' ''N'' ''u'' 1 [] 0 empty_world
        = (([], 0), empty_world\<lparr>fetched := [''u'']\<rparr>)"
    by simp
  from t [THEN conjunct2, THEN conjunct2, THEN conjunct2, THEN conjunct1, rule_format, OF n1]
  have h: "walk_patterns dead_env [[Lit ''u'', Page]] ''co.uk'' ''S1'' [] empty_world
        = (Inr [], empty_world\<lparr>fetched := [format_url [Lit ''u'', Page] ''co.uk'' ''S1'' 1]\<rparr>)"
    by simp
  from t [THEN conjunct2, THEN conjunct2, THEN conjunct2, THEN conjunct2, rule_format, OF n3]
  have k: "url_loop dead_env ''co.uk'' ''S1'' ''N'' [''u''] [] 0 empty_world
        = (([], 0), empty_world\<lparr>fetched := [''u'']\<rparr>)"
    by simp
  from a have a': "fst (enh_fresh_scan dead_env ''S1'' ''co.uk'' empty_world) = Inr ([], ''Unknown Seller'')
   \<and> fetched (snd (enh_fresh_scan dead_env ''S1'' ''co.uk'' empty_world))
       = enh_name_url ''co.uk'' ''S1''
           # map (\<lambda>pat. format_url pat ''co.uk'' ''S1'' 1) SELLER_URL_PATTERNS
   \<and> length (fetched (snd (enh_fresh_scan dead_env ''S1'' ''co.uk'' empty_world))) = 16"
    by auto
  from c ck have c': "fst (basic_fresh_scan dead_env ''co.uk'' ''S1'' empty_world) = []
   \<and> suffix (urls_to_try ''co.uk'' ''S1'' 0)
        (fetched (snd (basic_fresh_scan dead_env ''co.uk'' ''S1'' empty_world)))
   \<and> 14 \<le> length (fetched (snd (basic_fresh_scan dead_env ''co.uk'' ''S1'' empty_world)))
   \<and> length (fetched (snd (basic_fresh_scan dead_env ''co.uk'' ''S1'' empty_world))) \<le> 15"
    by (auto simp: suffix_def)
  note a1 = a' [THEN conjunct1] and a2 = a' [THEN conjunct2, THEN conjunct1]
    and a3 = a' [THEN conjunct2, THEN conjunct2]
    and c1 = c' [THEN conjunct1] and c2 = c' [THEN conjunct2, THEN conjunct1]
    and c3 = c' [THEN conjunct2, THEN conjunct2, THEN conjunct1]
    and c4 = c' [THEN conjunct2, THEN conjunct2, THEN conjunct2]
  show ?thesis
    by (intro conjI) (rule a1 a2 a3 b c1 c2 c3 c4 e f g h k)+
qed

text \<open>
  C2. For every seller, marketplace and \<^verbatim>\<open>force_refresh\<close> flag, the entry point
  \<^verbatim>\<open>get_seller_products\<close> of either module returns a value and never an exception: when
  the scan below it raises, and when the scan finds nothing, it returns the empty
  sequence.
\<close>

theorem entry_points_never_raise:
  "(\<exists>v. fst (basic_get_seller_products env sid mk force w) = Inr v)
   \<and> (\<forall>e. fst (scraper_get_seller_products env mk sid force w) = Inl e
          \<longrightarrow> fst (basic_get_seller_products env sid mk force w) = Inr (JArr []))
   \<and> (fst (scraper_get_seller_products env mk sid force w) = Inr (JArr [])
          \<longrightarrow> fst (basic_get_seller_products env sid mk force w) = Inr (JArr []))
   \<and> (\<exists>v. fst (enh_get_seller_products env sid mk force w) = Inr v)
   \<and> (\<forall>e. fst (scan_seller_inventory env sid mk force w) = Inl e
          \<longrightarrow> fst (enh_get_seller_products env sid mk force w) = Inr (JArr []))
   \<and> (\<forall>name. fst (scan_seller_inventory env sid mk force w) = Inr (JArr [], name)
          \<longrightarrow> fst (enh_get_seller_products env sid mk force w) = Inr (JArr []))"
proof -
  obtain r w1 where b: "scraper_get_seller_products env mk sid force w = (r, w1)"
    by (metis surj_pair)
  obtain q w2 where e: "scan_seller_inventory env sid mk force w = (q, w2)"
    by (metis surj_pair)
  show ?thesis
    by (cases r; cases q)
       (auto simp: basic_get_seller_products_def enh_get_seller_products_def b e)
qed

text \<open>
  Witness: a fresh cache entry whose \<^verbatim>\<open>products\<close> is the number 5 makes the scan raise
  \<^verbatim>\<open>TypeError\<close> (the length of the value is formatted into a log line), and the entry
  point returns the empty sequence; a scan in a world where every request fails finds
  nothing, and the entry point returns the empty sequence.
\<close>

theorem entry_points_never_raise_witness:
  "fst (scraper_get_seller_products
          (stub_env (\<lambda>i u. None) (\<lambda>t. no_soup)
             (one_loads (JObj [(''timestamp'', JNum 0), (''products'', JNum 5)])) 100)
          ''co.uk'' ''S2'' False (cache_world ''E'')) = Inl TypeError
   \<and> fst (basic_get_seller_products
          (stub_env (\<lambda>i u. None) (\<lambda>t. no_soup)
             (one_loads (JObj [(''timestamp'', JNum 0), (''products'', JNum 5)])) 100)
          ''S2'' ''co.uk'' False (cache_world ''E'')) = Inr (JArr [])
   \<and> fst (scan_seller_inventory
          (stub_env (\<lambda>i u. None) (\<lambda>t. no_soup)
             (one_loads (JObj [(''timestamp'', JStr ''T0''), (''products'', JNum 5)])) 100)
          ''S2'' ''co.uk'' False (cache_world ''E'')) = Inl TypeError
   \<and> fst (enh_get_seller_products
          (stub_env (\<lambda>i u. None) (\<lambda>t. no_soup)
             (one_loads (JObj [(''timestamp'', JStr ''T0''), (''products'', JNum 5)])) 100)
          ''S2'' ''co.uk'' False (cache_world ''E'')) = Inr (JArr [])
   \<and> fst (scraper_get_seller_products dead_env ''co.uk'' ''S1'' True empty_world) = Inr (JArr [])
   \<and> fst (basic_get_seller_products dead_env ''S1'' ''co.uk'' True empty_world) = Inr (JArr [])
   \<and> fst (scan_seller_inventory dead_env ''S1'' ''co.uk'' True empty_world)
        = Inr (JArr [], JStr ''Unknown Seller'')
   \<and> fst (enh_get_seller_products dead_env ''S1'' ''co.uk'' True empty_world) = Inr (JArr [])"
proof -
  let ?dA = "[(''timestamp'', JNum 0), (''products'', JNum 5)]"
  let ?dB = "[(''timestamp'', JStr ''T0''), (''products'', JNum 5)]"
  let ?A = "stub_env (\<lambda>i u. None) (\<lambda>t. no_soup) (one_loads (JObj ?dA)) 100"
  let ?B = "stub_env (\<lambda>i u. None) (\<lambda>t. no_soup) (one_loads (JObj ?dB)) 100"
  have "basic_get_from_cache ?A ''S2'' ''co.uk'' (cache_world ''E'')
          = (Some ?dA, (cache_world ''E'')\<lparr>ticks := Suc (ticks (cache_world ''E''))\<rparr>)"
    by (rule basic_lookup_hit [where c = "''E''" and t = 0])
       (simp_all add: cache_path_S2 basic_entry_def one_loads_def dict_get_def)
  then have a: "fst (scraper_get_seller_products ?A ''co.uk'' ''S2'' False (cache_world ''E''))
                  = Inl TypeError"
    by (simp add: scraper_get_seller_products_def dict_get_def)
  have "enh_get_from_cache ?B ''S2'' ''co.uk'' (cache_world ''E'')
          = (Some ?dB, (cache_world ''E'')\<lparr>ticks := Suc (ticks (cache_world ''E''))\<rparr>)"
    by (rule enh_lookup_hit [where c = "''E''" and t = 0])
       (simp_all add: cache_path_S2 enh_entry_def one_loads_def dict_get_def)
  then have b: "fst (scan_seller_inventory ?B ''S2'' ''co.uk'' False (cache_world ''E''))
                  = Inl TypeError"
    by (simp add: scan_seller_inventory_def)
  have c: "fst (scraper_get_seller_products dead_env ''co.uk'' ''S1'' True empty_world) = Inr (JArr [])"
    by (rule basic_top_dead) simp
  obtain w' where "enh_fresh_scan dead_env ''S1'' ''co.uk'' empty_world
                     = (Inr ([], ''Unknown Seller''), w')"
    using enh_fresh_scan_dead [of dead_env "''S1''" "''co.uk''" empty_world] by auto
  then have d: "fst (scan_seller_inventory dead_env ''S1'' ''co.uk'' True empty_world)
        = Inr (JArr [], JStr ''Unknown Seller'')"
    by (simp add: scan_seller_inventory_def)
  note tA = entry_points_never_raise [of ?A "''S2''" "''co.uk''" False "cache_world ''E''"]
  note tB = entry_points_never_raise [of ?B "''S2''" "''co.uk''" False "cache_world ''E''"]
  note tD = entry_points_never_raise [of dead_env "''S1''" "''co.uk''" True empty_world]
  from tA a have a': "fst (basic_get_seller_products ?A ''S2'' ''co.uk'' False (cache_world ''E''))
                        = Inr (JArr [])" by blast
  from tB b have b': "fst (enh_get_seller_products ?B ''S2'' ''co.uk'' False (cache_world ''E''))
                        = Inr (JArr [])" by blast
  from tD c have c': "fst (basic_get_seller_products dead_env ''S1'' ''co.uk'' True empty_world)
                        = Inr (JArr [])" by blast
  from tD d have d': "fst (enh_get_seller_products dead_env ''S1'' ''co.uk'' True empty_world)
                        = Inr (JArr [])" by blast
  from a a' b b' c c' d d' show ?thesis by blast
qed

text \<open>
  C1. The products that a scan returns (and caches) are the records met during the
  scan, in the order in which they were met, with every record dropped whose item
  identifier was met before: the first-seen record of an identifier is kept whole,
  later ones are discarded and nothing is merged. So no two records of the result share
  an identifier, and no identifier that was met is missing. This holds for the scan of
  \<^verbatim>\<open>amazon_scraper\<close>, which never raises, and for every scan of
  \<^verbatim>\<open>enhanced_amazon_scraper\<close> that returns.
\<close>

theorem scan_keeps_first_seen:
  "fst (basic_fresh_scan env mk sid w) = first_seen asin (basic_scan_records env mk sid w)
   \<and> distinct (map asin (fst (basic_fresh_scan env mk sid w)))
   \<and> asin ` set (fst (basic_fresh_scan env mk sid w)) = asin ` set (basic_scan_records env mk sid w)
   \<and> fst (scraper_get_seller_products env mk sid True w)
       = Inr (JArr (map product_json (fst (basic_fresh_scan env mk sid w))))
   \<and> (fst (basic_fresh_scan env mk sid w) \<noteq> [] \<longrightarrow>
        (\<exists>d. files (snd (basic_fresh_scan env mk sid w)) (get_cache_path env sid mk)
                = Some (json_dumps env (JObj d))
            \<and> map_of d ''products''
                = Some (JArr (map product_json (fst (basic_fresh_scan env mk sid w))))))
   \<and> (\<forall>ps name. fst (enh_fresh_scan env sid mk w) = Inr (ps, name) \<longrightarrow>
        ps = first_seen asin_key (enh_scan_records env sid mk w)
        \<and> distinct (map asin_key ps) \<and> distinct (map e_asin ps)
        \<and> asin_key ` set ps = asin_key ` set (enh_scan_records env sid mk w)
        \<and> fst (scan_seller_inventory env sid mk True w)
            = Inr (JArr (map eproduct_json ps), JStr name)
        \<and> (\<exists>d. files (snd (enh_fresh_scan env sid mk w)) (get_cache_path env sid mk)
                = Some (json_dumps env (JObj d))
            \<and> map_of d ''products'' = Some (JArr (map eproduct_json ps))))"
proof (intro conjI allI impI)
  show b: "fst (basic_fresh_scan env mk sid w) = first_seen asin (basic_scan_records env mk sid w)"
    by (rule basic_fresh_scan_first_seen)
  show "distinct (map asin (fst (basic_fresh_scan env mk sid w)))"
    by (simp add: b distinct_first_seen)
  show "asin ` set (fst (basic_fresh_scan env mk sid w)) = asin ` set (basic_scan_records env mk sid w)"
    by (simp add: b keys_first_seen)
  show "fst (scraper_get_seller_products env mk sid True w)
       = Inr (JArr (map product_json (fst (basic_fresh_scan env mk sid w))))"
    by (rule scraper_forced)
next
  assume "fst (basic_fresh_scan env mk sid w) \<noteq> []"
  then show "\<exists>d. files (snd (basic_fresh_scan env mk sid w)) (get_cache_path env sid mk)
                = Some (json_dumps env (JObj d))
            \<and> map_of d ''products''
                = Some (JArr (map product_json (fst (basic_fresh_scan env mk sid w))))"
    by (rule basic_fresh_scan_cached)
next
  fix ps name
  assume run: "fst (enh_fresh_scan env sid mk w) = Inr (ps, name)"
  then show e: "ps = first_seen asin_key (enh_scan_records env sid mk w)"
    by (rule enh_fresh_scan_first_seen)
  show k: "distinct (map asin_key ps)" by (simp add: e distinct_first_seen)
  have "asin_key = dict_key \<circ> e_asin" by (auto simp: asin_key_def)
  with k have "distinct (map (dict_key \<circ> e_asin) ps)" by simp
  then show "distinct (map e_asin ps)" by (rule distinct_map_comp)
  show "asin_key ` set ps = asin_key ` set (enh_scan_records env sid mk w)"
    using e keys_first_seen [of asin_key "enh_scan_records env sid mk w"] by simp
  from run show "fst (scan_seller_inventory env sid mk True w)
            = Inr (JArr (map eproduct_json ps), JStr name)"
    by (rule scan_forced)
  from run show "\<exists>d. files (snd (enh_fresh_scan env sid mk w)) (get_cache_path env sid mk)
                = Some (json_dumps env (JObj d))
            \<and> map_of d ''products'' = Some (JArr (map eproduct_json ps))"
    by (rule enh_fresh_scan_cached)
qed

text \<open>
  Witness: the scenario of the specification. Variant 1 offers two items, variant 2
  offers the first of them again under another title; both modules return the two
  records of variant 1.
\<close>

theorem scan_keeps_first_seen_witness:
  "fst (basic_fresh_scan s1_env ''co.uk'' ''S1'' empty_world)
     = [basic_record ''B000000001'' ''one'', basic_record ''B000000002'' ''two'']
   \<and> first_seen asin (basic_scan_records s1_env ''co.uk'' ''S1'' empty_world)
     = [basic_record ''B000000001'' ''one'', basic_record ''B000000002'' ''two'']
   \<and> fst (enh_fresh_scan s1_env ''S1'' ''co.uk'' empty_world)
     = Inr ([enh_record ''B000000001'' ''one'', enh_record ''B000000002'' ''two''],
            ''Unknown Seller'')
   \<and> first_seen asin_key (enh_scan_records s1_env ''S1'' ''co.uk'' empty_world)
     = [enh_record ''B000000001'' ''one'', enh_record ''B000000002'' ''two'']
   \<and> distinct (map e_asin [enh_record ''B000000001'' ''one'', enh_record ''B000000002'' ''two''])
   \<and> fst (scan_seller_inventory s1_env ''S1'' ''co.uk'' True empty_world)
     = Inr (JArr (map eproduct_json
                    [enh_record ''B000000001'' ''one'', enh_record ''B000000002'' ''two'']),
            JStr ''Unknown Seller'')"
proof -
  note t = scan_keeps_first_seen [of s1_env "''co.uk''" "''S1''" empty_world]
  let ?bs = "[basic_record ''B000000001'' ''one'', basic_record ''B000000002'' ''two'']"
  let ?es = "[enh_record ''B000000001'' ''one'', enh_record ''B000000002'' ''two'']"
  have b: "fst (basic_fresh_scan s1_env ''co.uk'' ''S1'' empty_world) = ?bs"
    by (rule s1_basic_scan)
  have e: "fst (enh_fresh_scan s1_env ''S1'' ''co.uk'' empty_world) = Inr (?es, ''Unknown Seller'')"
    by (rule s1_enh_scan)
  from t b have b': "first_seen asin (basic_scan_records s1_env ''co.uk'' ''S1'' empty_world) = ?bs"
    by simp
  from t e have e': "?es = first_seen asin_key (enh_scan_records s1_env ''S1'' ''co.uk'' empty_world)
      \<and> distinct (map e_asin ?es)
      \<and> fst (scan_seller_inventory s1_env ''S1'' ''co.uk'' True empty_world)
            = Inr (JArr (map eproduct_json ?es), JStr ''Unknown Seller'')"
    by blast
  from e' have e1: "first_seen asin_key (enh_scan_records s1_env ''S1'' ''co.uk'' empty_world) = ?es"
    by (rule conjunct1 [THEN sym])
  from e' have e2: "distinct (map e_asin ?es)"
    by (rule conjunct2 [THEN conjunct1])
  from e' have e3: "fst (scan_seller_inventory s1_env ''S1'' ''co.uk'' True empty_world)
            = Inr (JArr (map eproduct_json ?es), JStr ''Unknown Seller'')"
    by (rule conjunct2 [THEN conjunct2])
  show ?thesis
    by (intro conjI) (rule b b' e e1 e2 e3)+
qed







text \<open>
  C9 (as amended). In \<^verbatim>\<open>enhanced_amazon_scraper\<close>, after the initial pages of a variant
  are walked, the walker goes on to the extra pages of that variant (page 8 first, at
  most up to page 15) if and only if the number of records extracted from the initial
  pages is at least 100. The count takes every extracted record: those that repeat an
  identifier, and those already in the deduplication map, are counted too. Below 100
  the variant ends with the initial pages. \<^verbatim>\<open>amazon_scraper\<close> has no such extension: a
  variant is walked from page 1 and never beyond page 100.
\<close>

theorem extension_counts_all_records:
  "(\<forall>d1 cnt w1. walk_pages env pat mk sid [1..<8] d 0 w = (Inr (d1, cnt), w1) \<longrightarrow>
       cnt = length (seen_log env (enh_page_records env sid) (length (fetched w))
                       (drop (length (fetched w)) (fetched w1)))
       \<and> (100 \<le> cnt \<longrightarrow>
            scan_pattern env pat mk sid d w = walk_extra env pat mk sid [8..<16] d1 w1
            \<and> (\<exists>us. fetched (snd (scan_pattern env pat mk sid d w))
                       = fetched w1 @ format_url pat mk sid 8 # us
                     \<and> length us \<le> 7))
       \<and> (cnt < 100 \<longrightarrow> scan_pattern env pat mk sid d w = (Inr d1, w1)))
   \<and> (\<exists>n\<le>100. snd (page_loop env mk sid sname url0 1 pp cr w)
        = w\<lparr>fetched := fetched w @ map (basic_page_url url0) [1..<1 + n]\<rparr>)"
proof (intro conjI allI impI)
  fix d1 cnt w1
  assume wp: "walk_pages env pat mk sid [1..<8] d 0 w = (Inr (d1, cnt), w1)"
  from walk_pages_count [OF wp]
  obtain us where "w1 = w\<lparr>fetched := fetched w @ us\<rparr>"
    "cnt = 0 + length (seen_log env (enh_page_records env sid) (length (fetched w)) us)"
    by blast
  then show "cnt = length (seen_log env (enh_page_records env sid) (length (fetched w))
                       (drop (length (fetched w)) (fetched w1)))" by simp
  {
    assume big: "100 \<le> cnt"
    with wp show sp: "scan_pattern env pat mk sid d w = walk_extra env pat mk sid [8..<16] d1 w1"
      by (simp add: scan_pattern_def)
    have e: "[8..<16] = 8 # [9..<16]" by (simp add: upt_conv_Cons)
    have l: "length [9..<16] = 7" by simp
    from walk_extra_first [of env pat mk sid 8 "[9..<16]" d1 w1]
    show "\<exists>us. fetched (snd (scan_pattern env pat mk sid d w))
                       = fetched w1 @ format_url pat mk sid 8 # us \<and> length us \<le> 7"
      unfolding sp e l .
  }
  {
    assume "cnt < 100"
    with wp show "scan_pattern env pat mk sid d w = (Inr d1, w1)"
      by (simp add: scan_pattern_def)
  }
next
  show "\<exists>n\<le>100. snd (page_loop env mk sid sname url0 1 pp cr w)
        = w\<lparr>fetched := fetched w @ map (basic_page_url url0) [1..<1 + n]\<rparr>"
    using page_loop_log [of 1 100 env mk sid sname url0 pp cr w] by simp
qed

text \<open>
  Witness: a variant whose first page offers 100 records goes on to the extra pages; a
  variant whose pages offer 2 records (the scenario of seller \<^verbatim>\<open>S1\<close>) does not.
\<close>

theorem extension_counts_all_records_witness:
  "(100::nat) = length (seen_log c9_env (enh_page_records c9_env ''S1'') (length (fetched empty_world))
                  (drop (length (fetched empty_world))
                     (fetched (empty_world\<lparr>fetched := [format_url (hd SELLER_URL_PATTERNS) ''co.uk'' ''S1'' 1,
                                 format_url (hd SELLER_URL_PATTERNS) ''co.uk'' ''S1'' 2]\<rparr>))))
   \<and> scan_pattern c9_env (hd SELLER_URL_PATTERNS) ''co.uk'' ''S1'' [] empty_world
      = walk_extra c9_env (hd SELLER_URL_PATTERNS) ''co.uk'' ''S1'' [8..<16]
          [(JStr ''B000000001'', enh_record ''B000000001'' ''one'')]
          (empty_world\<lparr>fetched := [format_url (hd SELLER_URL_PATTERNS) ''co.uk'' ''S1'' 1,
                                 format_url (hd SELLER_URL_PATTERNS) ''co.uk'' ''S1'' 2]\<rparr>)
   \<and> scan_pattern s1_env (hd SELLER_URL_PATTERNS) ''co.uk'' ''S1'' []
        (empty_world\<lparr>fetched := [enh_name_url ''co.uk'' ''S1'']\<rparr>)
      = (Inr [(JStr ''B000000001'', enh_record ''B000000001'' ''one''),
              (JStr ''B000000002'', enh_record ''B000000002'' ''two'')],
         empty_world\<lparr>fetched := [enh_name_url ''co.uk'' ''S1'',
                                  format_url (hd SELLER_URL_PATTERNS) ''co.uk'' ''S1'' 1,
                                  format_url (hd SELLER_URL_PATTERNS) ''co.uk'' ''S1'' 2]\<rparr>)"
proof -
  let ?pat = "hd SELLER_URL_PATTERNS"
  let ?d1 = "[(JStr ''B000000001'', enh_record ''B000000001'' ''one'')]"
  let ?w1 = "empty_world\<lparr>fetched := [format_url ?pat ''co.uk'' ''S1'' 1,
                                 format_url ?pat ''co.uk'' ''S1'' 2]\<rparr>"
  let ?w0 = "empty_world\<lparr>fetched := [enh_name_url ''co.uk'' ''S1'']\<rparr>"
  let ?d2 = "[(JStr ''B000000001'', enh_record ''B000000001'' ''one''),
              (JStr ''B000000002'', enh_record ''B000000002'' ''two'')]"
  let ?w2 = "empty_world\<lparr>fetched := [enh_name_url ''co.uk'' ''S1'',
                                  format_url ?pat ''co.uk'' ''S1'' 1,
                                  format_url ?pat ''co.uk'' ''S1'' 2]\<rparr>"
  have h1: "walk_pages c9_env ?pat ''co.uk'' ''S1'' [1..<8] [] 0 empty_world = (Inr (?d1, 100), ?w1)"
    by (rule c9_walk)
  have h2: "walk_pages s1_env ?pat ''co.uk'' ''S1'' [1..<8] [] 0 ?w0 = (Inr (?d2, 2), ?w2)"
    by (rule s1_walk_pages)
  note t = extension_counts_all_records [of c9_env ?pat "''co.uk''" "''S1''" "[]" empty_world,
              THEN conjunct1, rule_format, OF h1]
  note u = extension_counts_all_records [of s1_env ?pat "''co.uk''" "''S1''" "[]" ?w0,
              THEN conjunct1, rule_format, OF h2]
  from t have a: "(100::nat) = length (seen_log c9_env (enh_page_records c9_env ''S1'')
       (length (fetched empty_world)) (drop (length (fetched empty_world)) (fetched ?w1)))"
    by (rule conjunct1)
  from t have b: "scan_pattern c9_env ?pat ''co.uk'' ''S1'' [] empty_world
      = walk_extra c9_env ?pat ''co.uk'' ''S1'' [8..<16] ?d1 ?w1"
    by simp
  from u have c: "scan_pattern s1_env ?pat ''co.uk'' ''S1'' [] ?w0 = (Inr ?d2, ?w2)"
    by simp
  from a b c show ?thesis by (intro conjI)
qed

text \<open>
  Counterexample to C9 as stated: the first page of a variant shows one item a hundred
  times and the second request fails. The variant has discovered one new product, and
  the walker requests page 8 all the same.
\<close>

theorem extension_without_new_products_counterexample:
  "walk_pages c9_env (hd SELLER_URL_PATTERNS) ''co.uk'' ''S1'' [1..<8] [] 0 empty_world
     = (Inr ([(JStr ''B000000001'', enh_record ''B000000001'' ''one'')], 100),
        empty_world\<lparr>fetched := [format_url (hd SELLER_URL_PATTERNS) ''co.uk'' ''S1'' 1,
                                 format_url (hd SELLER_URL_PATTERNS) ''co.uk'' ''S1'' 2]\<rparr>)
   \<and> scan_pattern c9_env (hd SELLER_URL_PATTERNS) ''co.uk'' ''S1'' [] empty_world
     = (Inr [(JStr ''B000000001'', enh_record ''B000000001'' ''one'')],
        empty_world\<lparr>fetched := [format_url (hd SELLER_URL_PATTERNS) ''co.uk'' ''S1'' 1,
                                 format_url (hd SELLER_URL_PATTERNS) ''co.uk'' ''S1'' 2,
                                 format_url (hd SELLER_URL_PATTERNS) ''co.uk'' ''S1'' 8]\<rparr>)
   \<and> length [(JStr ''B000000001'', enh_record ''B000000001'' ''one'')]
        - length ([] :: asin_dict) < 100"
  by (intro conjI, rule c9_walk, rule c9_scan, simp)


text \<open>
  C8 (as amended). In \<^verbatim>\<open>enhanced_amazon_scraper\<close> the URLs a scan requests from the
  variants form, in order, a subsequence of one list fixed by the seller and the
  marketplace alone: every variant at pages 1 to 15, variant after variant. In
  \<^verbatim>\<open>amazon_scraper\<close> the list of variants depends on the seller, the marketplace and the
  whole second of the clock reading: the ninth variant carries \<^verbatim>\<open>int(time.time())\<close>, the
  other thirteen are fixed, so two runs build the same list whenever their clock
  readings fall in the same second, and lists that differ in the ninth entry only
  otherwise. The URLs a scan requests form a subsequence of that list's variants at
  pages 1 to 100. No random state enters either list.
\<close>

theorem query_sequence_determined:
  "(py_int now = py_int now' \<longrightarrow> urls_to_try mk sid now = urls_to_try mk sid now')
   \<and> urls_to_try mk sid now
       = (urls_to_try mk sid now')
           [8 := base_url mk @ ''/s?i=merchant-items&me='' @ sid @ ''&qid='' @ str_int (py_int now)]
   \<and> (\<exists>us. snd (url_loop env mk sid sname (urls_to_try mk sid now) products cr w)
               = w\<lparr>fetched := fetched w @ us\<rparr>
            \<and> subseq us (basic_candidate_urls mk sid now))
   \<and> (\<exists>us. snd (walk_patterns env SELLER_URL_PATTERNS mk sid d w) = w\<lparr>fetched := fetched w @ us\<rparr>
            \<and> subseq us (enh_candidate_urls mk sid))"
proof (intro conjI impI)
  assume "py_int now = py_int now'"
  then show "urls_to_try mk sid now = urls_to_try mk sid now'"
    by (simp add: urls_to_try_def)
next
  show "urls_to_try mk sid now
       = (urls_to_try mk sid now')
           [8 := base_url mk @ ''/s?i=merchant-items&me='' @ sid @ ''&qid='' @ str_int (py_int now)]"
    by (simp add: urls_to_try_def eval_nat_numeral)
next
  show "\<exists>us. snd (url_loop env mk sid sname (urls_to_try mk sid now) products cr w)
               = w\<lparr>fetched := fetched w @ us\<rparr>
            \<and> subseq us (basic_candidate_urls mk sid now)"
    unfolding basic_candidate_urls_def by (rule url_loop_log)
next
  show "\<exists>us. snd (walk_patterns env SELLER_URL_PATTERNS mk sid d w) = w\<lparr>fetched := fetched w @ us\<rparr>
            \<and> subseq us (enh_candidate_urls mk sid)"
    unfolding enh_candidate_urls_def by (rule walk_patterns_log)
qed

text \<open>
  Witness: the clock readings 1.5 and 1 fall in the same second and give the same list.
\<close>

theorem query_sequence_determined_witness:
  "urls_to_try ''co.uk'' ''S1'' (3 / 2) = urls_to_try ''co.uk'' ''S1'' 1"
proof -
  have "py_int (3 / 2) = py_int 1" by (simp add: py_int_values)
  with query_sequence_determined [of "3 / 2" 1 "''co.uk''" "''S1''"] show ?thesis by blast
qed

text \<open>
  Counterexample to C8 as stated: for the same seller and marketplace the lists built
  at clock readings 0 and 1 differ, in their ninth entry.
\<close>

theorem query_sequence_time_counterexample:
  "urls_to_try ''co.uk'' ''S1'' 0 ! 8 = ''https://www.amazon.co.uk/s?i=merchant-items&me=S1&qid=0''
   \<and> urls_to_try ''co.uk'' ''S1'' 1 ! 8 = ''https://www.amazon.co.uk/s?i=merchant-items&me=S1&qid=1''
   \<and> urls_to_try ''co.uk'' ''S1'' 0 \<noteq> urls_to_try ''co.uk'' ''S1'' 1"
  by (simp add: urls_to_try_def base_url_def py_int_values str_int_digits)
end
